theory Spec2Isabelle
  imports Main
begin

section \<open>The source type model (what the converter reads from clang)\<close>

text \<open>
  The converter of \<^verbatim>\<open>HighLevelTypeConverter.cpp\<close> only observes clang's types. The
  model keeps the part of a type it reads: the type class, the children reached by
  \<^verbatim>\<open>getPointeeType\<close>, \<^verbatim>\<open>getElementType\<close>, \<^verbatim>\<open>getParamTypes\<close>,
  \<^verbatim>\<open>getReturnType\<close>, \<^verbatim>\<open>getNamedType\<close>, and the declaration behind a
  tag type.
\<close>

text \<open>\<^verbatim>\<open>clang::Qualifiers\<close>: only \<^verbatim>\<open>hasConst\<close> and \<^verbatim>\<open>hasVolatile\<close> are read.\<close>

record quals =
  hasConst :: bool
  hasVolatile :: bool

text \<open>
  \<^verbatim>\<open>clang::BuiltinType::Kind\<close>, in the order of clang's \<^verbatim>\<open>BuiltinTypes.def\<close>, with
  \<open>BuiltinType_K\<close> for \<^verbatim>\<open>BuiltinType::K\<close>. The kinds the converter never tells apart
  (fixed point, OpenCL, placeholder types, ...) are \<open>BuiltinType_OtherBuiltin\<close>: they
  lie outside the integer and the floating range.
\<close>

datatype builtin_kind =
    BuiltinType_Void | BuiltinType_Bool
  | BuiltinType_Char_U | BuiltinType_UChar | BuiltinType_WChar_U
  | BuiltinType_Char8 | BuiltinType_Char16 | BuiltinType_Char32
  | BuiltinType_UShort | BuiltinType_UInt | BuiltinType_ULong
  | BuiltinType_ULongLong | BuiltinType_UInt128
  | BuiltinType_Char_S | BuiltinType_SChar | BuiltinType_WChar_S
  | BuiltinType_Short | BuiltinType_Int | BuiltinType_Long
  | BuiltinType_LongLong | BuiltinType_Int128
  | BuiltinType_Half | BuiltinType_Float | BuiltinType_Double | BuiltinType_LongDouble
  | BuiltinType_Float16 | BuiltinType_BFloat16 | BuiltinType_Float128
  | BuiltinType_NullPtr | BuiltinType_OtherBuiltin

text \<open>A \<^verbatim>\<open>RecordType\<close> points to its \<^verbatim>\<open>RecordDecl\<close>; the model names the declaration
  by a handle, so that a record can mention itself.\<close>

type_synonym decl_id = nat

text \<open>
  \<^verbatim>\<open>clang::Type\<close> by type class. A \<^verbatim>\<open>QualType\<close> is a type with the qualifiers of
  one occurrence. \<open>Clang_TypedefType\<close> and \<open>Clang_ElaboratedType\<close> are sugar (the
  wrapped type is what \<^verbatim>\<open>desugar\<close> and \<^verbatim>\<open>getNamedType\<close> return). An
  \<^verbatim>\<open>EnumType\<close> carries the identifier of its declaration (\<open>None\<close> when anonymous).
  A function type carries the parameter types when it is a
  \<^verbatim>\<open>FunctionProtoType\<close>, and its return type. Every other type class is
  \<open>Clang_OtherType\<close>.
\<close>

datatype clang_type =
    Clang_BuiltinType builtin_kind
  | Clang_PointerType "clang_type \<times> quals"
  | Clang_RecordType decl_id
  | Clang_EnumType "string option"
  | Clang_ConstantArrayType "clang_type \<times> quals" nat
  | Clang_FunctionType "(clang_type \<times> quals) list option" "clang_type \<times> quals"
  | Clang_TypedefType "clang_type \<times> quals"
  | Clang_ElaboratedType "clang_type \<times> quals"
  | Clang_OtherType

type_synonym qual_type = "clang_type \<times> quals"

abbreviation getTypePtr :: "qual_type \<Rightarrow> clang_type" where
  "getTypePtr \<equiv> fst"

abbreviation getQualifiers :: "qual_type \<Rightarrow> quals" where
  "getQualifiers \<equiv> snd"

text \<open>\<^verbatim>\<open>RecordDecl\<close>: \<^verbatim>\<open>getIdentifier\<close> and \<^verbatim>\<open>fields()\<close> (name and type of each
  field, in declaration order).\<close>

record record_decl =
  getIdentifier :: "string option"
  decl_fields :: "(string \<times> qual_type) list"

text \<open>\<^verbatim>\<open>NamedDecl::getName\<close>: the identifier's text, the empty string without one.\<close>

definition getName :: "string option \<Rightarrow> string" where
  "getName ident = (case ident of None \<Rightarrow> [] | Some name \<Rightarrow> name)"

text \<open>\<^verbatim>\<open>Type::getUnqualifiedDesugaredType\<close>: strips sugar until a type that is not
  sugar is reached, dropping the qualifiers met on the way.\<close>

fun getUnqualifiedDesugaredType :: "clang_type \<Rightarrow> clang_type" where
  "getUnqualifiedDesugaredType (Clang_TypedefType (t, q)) = getUnqualifiedDesugaredType t"
| "getUnqualifiedDesugaredType (Clang_ElaboratedType (t, q)) = getUnqualifiedDesugaredType t"
| "getUnqualifiedDesugaredType t = t"

text \<open>clang's kind tests look through sugar (they test the canonical type).\<close>

definition isFunctionType :: "clang_type \<Rightarrow> bool" where
  "isFunctionType ty =
     (case getUnqualifiedDesugaredType ty of Clang_FunctionType ps r \<Rightarrow> True | _ \<Rightarrow> False)"

text \<open>The builtin tests, as ranges of \<^verbatim>\<open>BuiltinType::Kind\<close>: integer types are
  \<^verbatim>\<open>Bool..Int128\<close>, unsigned ones \<^verbatim>\<open>Bool..UInt128\<close>, floating ones
  \<^verbatim>\<open>Half..Float128\<close>.\<close>

definition isVoidType :: "builtin_kind \<Rightarrow> bool" where
  "isVoidType k = (k = BuiltinType_Void)"

definition isBooleanType :: "builtin_kind \<Rightarrow> bool" where
  "isBooleanType k = (k = BuiltinType_Bool)"

definition isUnsignedIntegerType :: "builtin_kind \<Rightarrow> bool" where
  "isUnsignedIntegerType k =
     (k \<in> {BuiltinType_Bool, BuiltinType_Char_U, BuiltinType_UChar, BuiltinType_WChar_U,
           BuiltinType_Char8, BuiltinType_Char16, BuiltinType_Char32, BuiltinType_UShort,
           BuiltinType_UInt, BuiltinType_ULong, BuiltinType_ULongLong, BuiltinType_UInt128})"

definition isIntegerType :: "builtin_kind \<Rightarrow> bool" where
  "isIntegerType k =
     (isUnsignedIntegerType k \<or>
      k \<in> {BuiltinType_Char_S, BuiltinType_SChar, BuiltinType_WChar_S, BuiltinType_Short,
           BuiltinType_Int, BuiltinType_Long, BuiltinType_LongLong, BuiltinType_Int128})"

definition isFloatingType :: "builtin_kind \<Rightarrow> bool" where
  "isFloatingType k =
     (k \<in> {BuiltinType_Half, BuiltinType_Float, BuiltinType_Double, BuiltinType_LongDouble,
           BuiltinType_Float16, BuiltinType_BFloat16, BuiltinType_Float128})"

section \<open>The IR types and the translation context\<close>

datatype IntegerKind =
    IntegerKind_Char | IntegerKind_Short | IntegerKind_Int
  | IntegerKind_Long | IntegerKind_LongLong | IntegerKind_Int128

datatype FloatingKind =
    FloatingKind_Half | FloatingKind_BFloat16 | FloatingKind_Float
  | FloatingKind_Double | FloatingKind_LongDouble | FloatingKind_Float128

text \<open>The high-level dialect's types, one constructor for each \<^verbatim>\<open>T::get\<close> the
  converter calls, with the arguments in the order of the call (for an integer:
  unsigned, const, volatile).\<close>

datatype ir_type =
    VoidType
  | BoolType bool bool
  | CharType bool bool bool
  | ShortType bool bool bool
  | IntType bool bool bool
  | LongType bool bool bool
  | LongLongType bool bool bool
  | Int128Type bool bool bool
  | HalfType bool bool
  | BFloat16Type bool bool
  | FloatType bool bool
  | DoubleType bool bool
  | LongDoubleType bool bool
  | Float128Type bool bool
  | PointerType ir_type bool bool
  | ConstantArrayType ir_type nat bool bool
  | RecordType "(string \<times> ir_type) list"
  | NamedType string
  | FunctionType "ir_type list" ir_type

text \<open>What \<^verbatim>\<open>ASTContext::getTypeInfo\<close> tells about a source type.\<close>

record type_info =
  Width :: nat
  Align :: nat

text \<open>
  The translation context \<^verbatim>\<open>ctx\<close> as the converter reads it: the names in
  \<^verbatim>\<open>type_decls\<close> and in \<^verbatim>\<open>type_defs\<close> (only \<^verbatim>\<open>count(name)\<close> is called), and of
  the \<^verbatim>\<open>ASTContext\<close> the declaration behind each record type and the layout query.
  The converter never writes any of them.
\<close>

record translation_context =
  type_decls :: "string set"
  type_defs :: "string set"
  getDecl :: "decl_id \<Rightarrow> record_decl"
  getTypeInfo :: "clang_type \<Rightarrow> type_info"

text \<open>The table behind \<^verbatim>\<open>ctx.data_layout()\<close>: the only state a conversion changes.\<close>

type_synonym data_layout = "ir_type \<rightharpoonup> type_info"

text \<open>Modelled from the spec: \<^verbatim>\<open>try_emplace\<close> of the data layout table, which is
  declared in a header that is not part of the sources. The spec's interface is
  \<^verbatim>\<open>record_if_absent(ir_type, source_type, source_context)\<close>, an idempotent upsert
  keyed by the IR type: it memoizes the layout facts of the source type under the
  produced IR type and leaves an entry that is already there alone.\<close>

definition try_emplace ::
  "data_layout \<Rightarrow> ir_type \<Rightarrow> clang_type \<Rightarrow> translation_context \<Rightarrow> data_layout" where
  "try_emplace dl mty aty ctx =
     (case dl mty of None \<Rightarrow> dl(mty \<mapsto> getTypeInfo ctx aty) | Some e \<Rightarrow> dl)"

text \<open>Modelled from the spec: the macros \<^verbatim>\<open>CHECK\<close> and \<^verbatim>\<open>UNREACHABLE\<close>, which come
  from a header that is not part of the sources. By the spec's error design each is a
  hard stop of the translation, with the taxonomy below; the model returns the error as
  a value, and no state with it.\<close>

datatype error =
    UnknownClangType
  | UnknownBuiltinType
  | UnknownIntegerKind
  | UnknownFloatingKind
  | AnonymousRecord
  | AnonymousEnum
  | DeclarationOrderViolation

text \<open>The outcome of a conversion that threads the data layout: \<open>None\<close> when the
  recursion budget of the model was used up, otherwise the failure or the value with
  the table after the call.\<close>

type_synonym 'a outcome = "(error + 'a \<times> data_layout) option"

section \<open>Builtin types\<close>

fun get_integer_kind :: "builtin_kind \<Rightarrow> error + IntegerKind" where
  "get_integer_kind BuiltinType_Char_U = Inr IntegerKind_Char"
| "get_integer_kind BuiltinType_UChar = Inr IntegerKind_Char"
| "get_integer_kind BuiltinType_Char_S = Inr IntegerKind_Char"
| "get_integer_kind BuiltinType_SChar = Inr IntegerKind_Char"
| "get_integer_kind BuiltinType_Short = Inr IntegerKind_Short"
| "get_integer_kind BuiltinType_UShort = Inr IntegerKind_Short"
| "get_integer_kind BuiltinType_Int = Inr IntegerKind_Int"
| "get_integer_kind BuiltinType_UInt = Inr IntegerKind_Int"
| "get_integer_kind BuiltinType_Long = Inr IntegerKind_Long"
| "get_integer_kind BuiltinType_ULong = Inr IntegerKind_Long"
| "get_integer_kind BuiltinType_LongLong = Inr IntegerKind_LongLong"
| "get_integer_kind BuiltinType_ULongLong = Inr IntegerKind_LongLong"
| "get_integer_kind BuiltinType_Int128 = Inr IntegerKind_Int128"
| "get_integer_kind BuiltinType_UInt128 = Inr IntegerKind_Int128"
| "get_integer_kind k = Inl UnknownIntegerKind"

fun get_floating_kind :: "builtin_kind \<Rightarrow> error + FloatingKind" where
  "get_floating_kind BuiltinType_Half = Inr FloatingKind_Half"
| "get_floating_kind BuiltinType_Float16 = Inr FloatingKind_Half"
| "get_floating_kind BuiltinType_BFloat16 = Inr FloatingKind_BFloat16"
| "get_floating_kind BuiltinType_Float = Inr FloatingKind_Float"
| "get_floating_kind BuiltinType_Double = Inr FloatingKind_Double"
| "get_floating_kind BuiltinType_LongDouble = Inr FloatingKind_LongDouble"
| "get_floating_kind BuiltinType_Float128 = Inr FloatingKind_Float128"
| "get_floating_kind k = Inl UnknownFloatingKind"

text \<open>\<^verbatim>\<open>do_convert(const BuiltinType *ty, Quals quals)\<close>, with the kind of \<open>ty\<close> for
  \<open>ty\<close>.\<close>

definition do_convert_builtin :: "builtin_kind \<Rightarrow> quals \<Rightarrow> error + ir_type" where
  "do_convert_builtin ty quals =
     (let v = hasVolatile quals; c = hasConst quals in
      if isVoidType ty then Inr VoidType
      else if isBooleanType ty then Inr (BoolType c v)
      else if isIntegerType ty then
        (let u = isUnsignedIntegerType ty in
         case get_integer_kind ty of
           Inl e \<Rightarrow> Inl e
         | Inr IntegerKind_Char \<Rightarrow> Inr (CharType u c v)
         | Inr IntegerKind_Short \<Rightarrow> Inr (ShortType u c v)
         | Inr IntegerKind_Int \<Rightarrow> Inr (IntType u c v)
         | Inr IntegerKind_Long \<Rightarrow> Inr (LongType u c v)
         | Inr IntegerKind_LongLong \<Rightarrow> Inr (LongLongType u c v)
         | Inr IntegerKind_Int128 \<Rightarrow> Inr (Int128Type u c v))
      else if isFloatingType ty then
        (case get_floating_kind ty of
           Inl e \<Rightarrow> Inl e
         | Inr FloatingKind_Half \<Rightarrow> Inr (HalfType c v)
         | Inr FloatingKind_BFloat16 \<Rightarrow> Inr (BFloat16Type c v)
         | Inr FloatingKind_Float \<Rightarrow> Inr (FloatType c v)
         | Inr FloatingKind_Double \<Rightarrow> Inr (DoubleType c v)
         | Inr FloatingKind_LongDouble \<Rightarrow> Inr (LongDoubleType c v)
         | Inr FloatingKind_Float128 \<Rightarrow> Inr (Float128Type c v))
      else Inl UnknownBuiltinType)"

section \<open>Enum types\<close>

text \<open>\<^verbatim>\<open>do_convert(const clang::EnumType *ty, Quals quals)\<close>, with \<open>ident\<close> for
  \<^verbatim>\<open>ty->getDecl()->getIdentifier()\<close>.\<close>

definition do_convert_enum :: "string option \<Rightarrow> quals \<Rightarrow> error + ir_type" where
  "do_convert_enum ident quals =
     (if ident = None then Inl AnonymousEnum
      else Inr (NamedType (getName ident)))"

section \<open>The recursive conversion\<close>

text \<open>
  The C++ functions call each other through \<^verbatim>\<open>convert\<close>, and a record's fields can
  lead back to the record, so the recursion need not end. Each rule below takes the
  entry point it calls as its first argument, named \<open>convert\<close> as in the source; the
  knot is tied by \<open>dl_aware_convert\<close>, whose first argument bounds the depth of nested
  calls of the entry point and which returns \<open>None\<close> when the bound is reached.
  \<^verbatim>\<open>convert(QualType)\<close> and \<^verbatim>\<open>convert(const Type*, Quals)\<close> only forward to
  \<^verbatim>\<open>dl_aware_convert\<close>.
\<close>

type_synonym entry_point = "clang_type \<Rightarrow> quals \<Rightarrow> data_layout \<Rightarrow> ir_type outcome"

text \<open>
  \<^verbatim>\<open>do_convert(const clang::PointerType *ty, Quals quals)\<close>, with \<open>p\<close> for
  \<^verbatim>\<open>ty->getPointeeType()\<close>. The two \<^verbatim>\<open>dyn_cast\<close>s test the class of the type itself:
  they do not look through sugar. \<open>tag\<close> is the name of the declaration when the
  pointee is a \<^verbatim>\<open>TagType\<close>.
\<close>

definition do_convert_pointer ::
  "entry_point \<Rightarrow> translation_context \<Rightarrow> qual_type \<Rightarrow> quals \<Rightarrow> data_layout
    \<Rightarrow> ir_type outcome" where
  "do_convert_pointer convert ctx p quals dl =
     (let pointee = (case getTypePtr p of Clang_ElaboratedType named \<Rightarrow> named | _ \<Rightarrow> p);
          tag = (case getTypePtr pointee of
                   Clang_RecordType d \<Rightarrow> Some (getName (getIdentifier (getDecl ctx d)))
                 | Clang_EnumType ident \<Rightarrow> Some (getName ident)
                 | _ \<Rightarrow> None)
      in case (case tag of
                 Some tag_name \<Rightarrow>
                   if tag_name \<in> type_decls ctx then Some (Inr (NamedType tag_name, dl))
                   else convert (getTypePtr pointee) (getQualifiers pointee) dl
               | None \<Rightarrow> convert (getTypePtr pointee) (getQualifiers pointee) dl) of
           None \<Rightarrow> None
         | Some (Inl e) \<Rightarrow> Some (Inl e)
         | Some (Inr (converted_pointee, dl')) \<Rightarrow>
             Some (Inr (PointerType converted_pointee (hasConst quals) (hasVolatile quals),
                        dl')))"

text \<open>The loop over \<^verbatim>\<open>decl->fields()\<close> of the record rule: each field is converted by
  \<^verbatim>\<open>convert(field->getType())\<close> and pushed with its name.\<close>

fun convert_fields ::
  "entry_point \<Rightarrow> (string \<times> qual_type) list \<Rightarrow> data_layout
    \<Rightarrow> (string \<times> ir_type) list outcome" where
  "convert_fields convert [] dl = Some (Inr ([], dl))"
| "convert_fields convert (field # rest) dl =
     (case convert (getTypePtr (snd field)) (getQualifiers (snd field)) dl of
        None \<Rightarrow> None
      | Some (Inl e) \<Rightarrow> Some (Inl e)
      | Some (Inr (field_type, dl')) \<Rightarrow>
          (case convert_fields convert rest dl' of
             None \<Rightarrow> None
           | Some (Inl e) \<Rightarrow> Some (Inl e)
           | Some (Inr (fs, dl'')) \<Rightarrow> Some (Inr ((fst field, field_type) # fs, dl''))))"

text \<open>\<^verbatim>\<open>do_convert(const clang::RecordType *ty, Quals quals)\<close>, with \<open>decl\<close> for
  \<^verbatim>\<open>ty->getDecl()\<close>.\<close>

definition do_convert_record ::
  "entry_point \<Rightarrow> translation_context \<Rightarrow> record_decl \<Rightarrow> quals \<Rightarrow> data_layout
    \<Rightarrow> ir_type outcome" where
  "do_convert_record convert ctx decl quals dl =
     (if getIdentifier decl = None then Some (Inl AnonymousRecord)
      else let name = getName (getIdentifier decl) in
        if name \<notin> type_defs ctx then
          (if name \<notin> type_decls ctx then Some (Inl DeclarationOrderViolation)
           else case convert_fields convert (decl_fields decl) dl of
                  None \<Rightarrow> None
                | Some (Inl e) \<Rightarrow> Some (Inl e)
                | Some (Inr (fs, dl')) \<Rightarrow> Some (Inr (RecordType fs, dl')))
        else Some (Inr (NamedType name, dl)))"

text \<open>\<^verbatim>\<open>do_convert(const clang::ConstantArrayType *ty, Quals quals)\<close>, with \<open>elem\<close> for
  \<^verbatim>\<open>ty->getElementType()\<close> and \<open>bound\<close> for \<^verbatim>\<open>ty->getSize()\<close>.\<close>

definition do_convert_array ::
  "entry_point \<Rightarrow> qual_type \<Rightarrow> nat \<Rightarrow> quals \<Rightarrow> data_layout \<Rightarrow> ir_type outcome" where
  "do_convert_array convert elem bound quals dl =
     (case convert (getTypePtr elem) (getQualifiers elem) dl of
        None \<Rightarrow> None
      | Some (Inl e) \<Rightarrow> Some (Inl e)
      | Some (Inr (element_type, dl')) \<Rightarrow>
          Some (Inr (ConstantArrayType element_type bound (hasConst quals) (hasVolatile quals),
                     dl')))"

text \<open>The loop over \<^verbatim>\<open>prototype->getParamTypes()\<close>.\<close>

fun convert_params ::
  "entry_point \<Rightarrow> qual_type list \<Rightarrow> data_layout \<Rightarrow> ir_type list outcome" where
  "convert_params convert [] dl = Some (Inr ([], dl))"
| "convert_params convert (param # rest) dl =
     (case convert (getTypePtr param) (getQualifiers param) dl of
        None \<Rightarrow> None
      | Some (Inl e) \<Rightarrow> Some (Inl e)
      | Some (Inr (t, dl')) \<Rightarrow>
          (case convert_params convert rest dl' of
             None \<Rightarrow> None
           | Some (Inl e) \<Rightarrow> Some (Inl e)
           | Some (Inr (args, dl'')) \<Rightarrow> Some (Inr (t # args, dl''))))"

text \<open>\<^verbatim>\<open>convert(const clang::FunctionType *ty)\<close>, with \<open>prototype\<close> for the parameter
  types when \<open>ty\<close> is a \<^verbatim>\<open>FunctionProtoType\<close> and \<open>ret\<close> for
  \<^verbatim>\<open>ty->getReturnType()\<close>.\<close>

definition convert_function ::
  "entry_point \<Rightarrow> qual_type list option \<Rightarrow> qual_type \<Rightarrow> data_layout \<Rightarrow> ir_type outcome" where
  "convert_function convert prototype ret dl =
     (case convert_params convert (case prototype of None \<Rightarrow> [] | Some ps \<Rightarrow> ps) dl of
        None \<Rightarrow> None
      | Some (Inl e) \<Rightarrow> Some (Inl e)
      | Some (Inr (args, dl')) \<Rightarrow>
          (case convert (getTypePtr ret) (getQualifiers ret) dl' of
             None \<Rightarrow> None
           | Some (Inl e) \<Rightarrow> Some (Inl e)
           | Some (Inr (rty, dl'')) \<Rightarrow> Some (Inr (FunctionType args rty, dl''))))"

text \<open>\<^verbatim>\<open>do_convert(const clang::Type *ty, Quals quals)\<close>: the dispatch on the
  desugared type, in the order of the source.\<close>

definition do_convert ::
  "entry_point \<Rightarrow> translation_context \<Rightarrow> clang_type \<Rightarrow> quals \<Rightarrow> data_layout
    \<Rightarrow> ir_type outcome" where
  "do_convert convert ctx ty quals dl =
     (case getUnqualifiedDesugaredType ty of
        Clang_BuiltinType k \<Rightarrow>
          (case do_convert_builtin k quals of
             Inl e \<Rightarrow> Some (Inl e)
           | Inr t \<Rightarrow> Some (Inr (t, dl)))
      | Clang_PointerType pointee \<Rightarrow> do_convert_pointer convert ctx pointee quals dl
      | Clang_RecordType d \<Rightarrow> do_convert_record convert ctx (getDecl ctx d) quals dl
      | Clang_EnumType ident \<Rightarrow>
          (case do_convert_enum ident quals of
             Inl e \<Rightarrow> Some (Inl e)
           | Inr t \<Rightarrow> Some (Inr (t, dl)))
      | Clang_ConstantArrayType elem bound \<Rightarrow> do_convert_array convert elem bound quals dl
      | Clang_FunctionType prototype ret \<Rightarrow> convert_function convert prototype ret dl
      | _ \<Rightarrow> Some (Inl UnknownClangType))"

text \<open>\<^verbatim>\<open>dl_aware_convert(const clang::Type *ty, Quals quals)\<close>. The test
  \<^verbatim>\<open>ty->isFunctionType()\<close> and the layout query are on the type as it was passed,
  before desugaring.\<close>

primrec dl_aware_convert ::
  "nat \<Rightarrow> translation_context \<Rightarrow> clang_type \<Rightarrow> quals \<Rightarrow> data_layout \<Rightarrow> ir_type outcome" where
  "dl_aware_convert 0 ctx ty quals dl = None"
| "dl_aware_convert (Suc n) ctx ty quals dl =
     (case do_convert (dl_aware_convert n ctx) ctx ty quals dl of
        None \<Rightarrow> None
      | Some (Inl e) \<Rightarrow> Some (Inl e)
      | Some (Inr (out, dl')) \<Rightarrow>
          Some (Inr (out, if \<not> isFunctionType ty then try_emplace dl' out ty ctx else dl')))"

text \<open>The two public overloads.\<close>

definition convert_type ::
  "nat \<Rightarrow> translation_context \<Rightarrow> clang_type \<Rightarrow> quals \<Rightarrow> data_layout \<Rightarrow> ir_type outcome" where
  "convert_type n ctx ty quals dl = dl_aware_convert n ctx ty quals dl"

definition convert ::
  "nat \<Rightarrow> translation_context \<Rightarrow> qual_type \<Rightarrow> data_layout \<Rightarrow> ir_type outcome" where
  "convert n ctx ty dl = convert_type n ctx (getTypePtr ty) (getQualifiers ty) dl"

section \<open>Notions of the specification\<close>

text \<open>The IR type of an outcome, without the data layout table.\<close>

definition ir_of :: "'a outcome \<Rightarrow> (error + 'a) option" where
  "ir_of r = map_option (map_sum id fst) r"

text \<open>The specification's \<open>Integer(kind)(unsigned, const, volatile)\<close>.\<close>

fun integer_type_of :: "IntegerKind \<Rightarrow> bool \<Rightarrow> bool \<Rightarrow> bool \<Rightarrow> ir_type" where
  "integer_type_of IntegerKind_Char u c v = CharType u c v"
| "integer_type_of IntegerKind_Short u c v = ShortType u c v"
| "integer_type_of IntegerKind_Int u c v = IntType u c v"
| "integer_type_of IntegerKind_Long u c v = LongType u c v"
| "integer_type_of IntegerKind_LongLong u c v = LongLongType u c v"
| "integer_type_of IntegerKind_Int128 u c v = Int128Type u c v"

text \<open>The qualifier slots of the outermost node of an IR type: \<open>None\<close> for the nodes
  that have none.\<close>

fun outer_quals :: "ir_type \<Rightarrow> (bool \<times> bool) option" where
  "outer_quals (BoolType c v) = Some (c, v)"
| "outer_quals (CharType u c v) = Some (c, v)"
| "outer_quals (ShortType u c v) = Some (c, v)"
| "outer_quals (IntType u c v) = Some (c, v)"
| "outer_quals (LongType u c v) = Some (c, v)"
| "outer_quals (LongLongType u c v) = Some (c, v)"
| "outer_quals (Int128Type u c v) = Some (c, v)"
| "outer_quals (HalfType c v) = Some (c, v)"
| "outer_quals (BFloat16Type c v) = Some (c, v)"
| "outer_quals (FloatType c v) = Some (c, v)"
| "outer_quals (DoubleType c v) = Some (c, v)"
| "outer_quals (LongDoubleType c v) = Some (c, v)"
| "outer_quals (Float128Type c v) = Some (c, v)"
| "outer_quals (PointerType t c v) = Some (c, v)"
| "outer_quals (ConstantArrayType t n c v) = Some (c, v)"
| "outer_quals t = None"

text \<open>An IR type with the qualifier bits of its outermost node replaced; everything
  below the outermost node is kept.\<close>

fun with_quals :: "quals \<Rightarrow> ir_type \<Rightarrow> ir_type" where
  "with_quals q (BoolType c v) = BoolType (hasConst q) (hasVolatile q)"
| "with_quals q (CharType u c v) = CharType u (hasConst q) (hasVolatile q)"
| "with_quals q (ShortType u c v) = ShortType u (hasConst q) (hasVolatile q)"
| "with_quals q (IntType u c v) = IntType u (hasConst q) (hasVolatile q)"
| "with_quals q (LongType u c v) = LongType u (hasConst q) (hasVolatile q)"
| "with_quals q (LongLongType u c v) = LongLongType u (hasConst q) (hasVolatile q)"
| "with_quals q (Int128Type u c v) = Int128Type u (hasConst q) (hasVolatile q)"
| "with_quals q (HalfType c v) = HalfType (hasConst q) (hasVolatile q)"
| "with_quals q (BFloat16Type c v) = BFloat16Type (hasConst q) (hasVolatile q)"
| "with_quals q (FloatType c v) = FloatType (hasConst q) (hasVolatile q)"
| "with_quals q (DoubleType c v) = DoubleType (hasConst q) (hasVolatile q)"
| "with_quals q (LongDoubleType c v) = LongDoubleType (hasConst q) (hasVolatile q)"
| "with_quals q (Float128Type c v) = Float128Type (hasConst q) (hasVolatile q)"
| "with_quals q (PointerType t c v) = PointerType t (hasConst q) (hasVolatile q)"
| "with_quals q (ConstantArrayType t n c v) = ConstantArrayType t n (hasConst q) (hasVolatile q)"
| "with_quals q t = t"

text \<open>An outcome with the qualifier bits of the outermost node of its IR type
  replaced.\<close>

definition requalified :: "quals \<Rightarrow> ir_type outcome \<Rightarrow> ir_type outcome" where
  "requalified q r = map_option (map_sum id (apfst (with_quals q))) r"

text \<open>An outcome whose IR type, if there is one, has no qualifier slots.\<close>

definition unqualified_outcome :: "ir_type outcome \<Rightarrow> bool" where
  "unqualified_outcome r =
     (case r of Some (Inr (t, dl)) \<Rightarrow> outer_quals t = None | _ \<Rightarrow> True)"

text \<open>The pointee of a pointer "after unwrapping one level of elaborated sugar".\<close>

definition unwrapped_pointee :: "qual_type \<Rightarrow> qual_type" where
  "unwrapped_pointee p = (case getTypePtr p of Clang_ElaboratedType named \<Rightarrow> named | _ \<Rightarrow> p)"

text \<open>The name of a type that is a tag type (a record or an enum type, not sugar for
  one), \<open>None\<close> for every other type.\<close>

definition tag_name_of :: "translation_context \<Rightarrow> clang_type \<Rightarrow> string option" where
  "tag_name_of ctx ty =
     (case ty of
        Clang_RecordType d \<Rightarrow> Some (getName (getIdentifier (getDecl ctx d)))
      | Clang_EnumType ident \<Rightarrow> Some (getName ident)
      | _ \<Rightarrow> None)"

text \<open>"The pointee is a tag type whose name is present in the declared set".\<close>

definition declared_tag :: "translation_context \<Rightarrow> qual_type \<Rightarrow> bool" where
  "declared_tag ctx pointee =
     (case tag_name_of ctx (getTypePtr pointee) of
        None \<Rightarrow> False
      | Some name \<Rightarrow> name \<in> type_decls ctx)"

text \<open>Wrapping the outcome of the pointee's conversion in a pointer node.\<close>

definition pointer_to :: "quals \<Rightarrow> ir_type outcome \<Rightarrow> ir_type outcome" where
  "pointer_to quals r =
     (case r of
        None \<Rightarrow> None
      | Some (Inl e) \<Rightarrow> Some (Inl e)
      | Some (Inr (t, dl)) \<Rightarrow> Some (Inr (PointerType t (hasConst quals) (hasVolatile quals), dl)))"

text \<open>A field whose type is, up to sugar, a pointer to the record declared at \<open>d\<close>
  (written \<^verbatim>\<open>struct S *\<close> or through a typedef of the pointer).\<close>

definition points_to_record :: "decl_id \<Rightarrow> qual_type \<Rightarrow> bool" where
  "points_to_record d fty =
     (case getUnqualifiedDesugaredType (getTypePtr fty) of
        Clang_PointerType p \<Rightarrow> getTypePtr (unwrapped_pointee p) = Clang_RecordType d
      | _ \<Rightarrow> False)"

text \<open>
  The record rule's loop without the table: the fields in declaration order, each
  converted by \<open>f\<close> from its own qualified type, stopping at the first field that
  fails.
\<close>

fun fields_in_order ::
  "(qual_type \<Rightarrow> (error + ir_type) option) \<Rightarrow> (string \<times> qual_type) list
    \<Rightarrow> (error + (string \<times> ir_type) list) option" where
  "fields_in_order f [] = Some (Inr [])"
| "fields_in_order f (field # rest) =
     (case f (snd field) of
        None \<Rightarrow> None
      | Some (Inl e) \<Rightarrow> Some (Inl e)
      | Some (Inr t) \<Rightarrow>
          (case fields_in_order f rest of
             None \<Rightarrow> None
           | Some (Inl e) \<Rightarrow> Some (Inl e)
           | Some (Inr fs) \<Rightarrow> Some (Inr ((fst field, t) # fs))))"

definition record_of ::
  "(error + (string \<times> ir_type) list) option \<Rightarrow> (error + ir_type) option" where
  "record_of r = map_option (map_sum id RecordType) r"

text \<open>
  A conversion changes the table only by calls of \<^verbatim>\<open>try_emplace\<close>. A log lists the
  calls in order, each with its IR type and its source type; \<open>replay\<close> runs a log on a
  table, and \<open>logged\<close> turns a result with a log into the outcome at a given table.
\<close>

type_synonym emplace_log = "(ir_type \<times> clang_type) list"

definition replay :: "translation_context \<Rightarrow> data_layout \<Rightarrow> emplace_log \<Rightarrow> data_layout" where
  "replay ctx dl log = foldl (\<lambda>d (mty, aty). try_emplace d mty aty ctx) dl log"

definition logged ::
  "translation_context \<Rightarrow> (error + 'a \<times> emplace_log) option \<Rightarrow> data_layout \<Rightarrow> 'a outcome" where
  "logged ctx r dl =
     (case r of
        None \<Rightarrow> None
      | Some (Inl e) \<Rightarrow> Some (Inl e)
      | Some (Inr (x, log)) \<Rightarrow> Some (Inr (x, replay ctx dl log)))"

text \<open>Two logged computations in sequence: the first failure wins, the logs are
  appended.\<close>

definition then_logged ::
  "(error + 'a \<times> emplace_log) option \<Rightarrow> (error + 'b \<times> emplace_log) option
    \<Rightarrow> ('a \<Rightarrow> 'b \<Rightarrow> 'c) \<Rightarrow> (error + 'c \<times> emplace_log) option" where
  "then_logged r1 r2 f =
     (case r1 of
        None \<Rightarrow> None
      | Some (Inl e) \<Rightarrow> Some (Inl e)
      | Some (Inr (x, l1)) \<Rightarrow>
          (case r2 of
             None \<Rightarrow> None
           | Some (Inl e) \<Rightarrow> Some (Inl e)
           | Some (Inr (y, l2)) \<Rightarrow> Some (Inr (f x y, l1 @ l2))))"

text \<open>The IR function types, and the logs that hold none as a key.\<close>

fun is_function_ir :: "ir_type \<Rightarrow> bool" where
  "is_function_ir (FunctionType args rty) = True"
| "is_function_ir t = False"

definition plain_log :: "emplace_log \<Rightarrow> bool" where
  "plain_log log = list_all (\<lambda>(mty, aty). \<not> is_function_ir mty) log"

definition plain_result :: "(error + 'a \<times> emplace_log) option \<Rightarrow> bool" where
  "plain_result r = (case r of Some (Inr (x, log)) \<Rightarrow> plain_log log | _ \<Rightarrow> True)"

section \<open>Example inputs\<close>

definition no_quals :: quals where
  "no_quals = \<lparr>hasConst = False, hasVolatile = False\<rparr>"

definition const_quals :: quals where
  "const_quals = \<lparr>hasConst = True, hasVolatile = False\<rparr>"

definition volatile_quals :: quals where
  "volatile_quals = \<lparr>hasConst = False, hasVolatile = True\<rparr>"

text \<open>\<^verbatim>\<open>struct S { struct S *next; };\<close> The field's type is a pointer to the
  elaborated type \<^verbatim>\<open>struct S\<close>, which names the record type of declaration 0.\<close>

definition struct_S :: record_decl where
  "struct_S =
     \<lparr>getIdentifier = Some ''S'',
      decl_fields =
        [(''next'',
          (Clang_PointerType (Clang_ElaboratedType (Clang_RecordType 0, no_quals), no_quals),
           no_quals))]\<rparr>"

text \<open>\<^verbatim>\<open>struct P { int x; const char *name; };\<close> at declaration 1.\<close>

definition struct_P :: record_decl where
  "struct_P =
     \<lparr>getIdentifier = Some ''P'',
      decl_fields =
        [(''x'', (Clang_BuiltinType BuiltinType_Int, no_quals)),
         (''name'',
          (Clang_PointerType (Clang_BuiltinType BuiltinType_Char_S, const_quals), no_quals))]\<rparr>"

text \<open>\<^verbatim>\<open>typedef struct T T_t; struct T { T_t *next; };\<close> at declaration 2: the
  field's pointee is the typedef, which is sugar for the elaborated type
  \<^verbatim>\<open>struct T\<close>.\<close>

definition struct_T :: record_decl where
  "struct_T =
     \<lparr>getIdentifier = Some ''T'',
      decl_fields =
        [(''next'',
          (Clang_PointerType
             (Clang_TypedefType (Clang_ElaboratedType (Clang_RecordType 2, no_quals), no_quals),
              no_quals),
           no_quals))]\<rparr>"

text \<open>\<^verbatim>\<open>struct Q { int x; enum { A, B } e; };\<close> at declaration 3: the second field
  has an enum type without a name.\<close>

definition struct_Q :: record_decl where
  "struct_Q =
     \<lparr>getIdentifier = Some ''Q'',
      decl_fields =
        [(''x'', (Clang_BuiltinType BuiltinType_Int, no_quals)),
         (''e'', (Clang_ElaboratedType (Clang_EnumType None, no_quals), no_quals))]\<rparr>"

definition example_decls :: "decl_id \<Rightarrow> record_decl" where
  "example_decls d =
     (if d = 0 then struct_S else if d = 1 then struct_P
      else if d = 2 then struct_T else if d = 3 then struct_Q
      else \<lparr>getIdentifier = None, decl_fields = []\<rparr>)"

definition example_info :: "clang_type \<Rightarrow> type_info" where
  "example_info ty =
     (case getUnqualifiedDesugaredType ty of
        Clang_BuiltinType k \<Rightarrow> \<lparr>Width = 32, Align = 32\<rparr>
      | Clang_RecordType d \<Rightarrow> \<lparr>Width = 128, Align = 64\<rparr>
      | _ \<Rightarrow> \<lparr>Width = 64, Align = 64\<rparr>)"

text \<open>The function type \<^verbatim>\<open>int(int, const char*)\<close>.\<close>

definition example_function :: clang_type where
  "example_function =
     Clang_FunctionType
       (Some [(Clang_BuiltinType BuiltinType_Int, no_quals),
              (Clang_PointerType (Clang_BuiltinType BuiltinType_Char_S, const_quals), no_quals)])
       (Clang_BuiltinType BuiltinType_Int, no_quals)"

text \<open>The IR types of \<^verbatim>\<open>struct P\<close> and of the function type, and the tables their
  conversions leave when they start from the empty table.\<close>

definition ir_struct_P :: ir_type where
  "ir_struct_P =
     RecordType
       [(''x'', IntType False False False),
        (''name'', PointerType (CharType False True False) False False)]"

definition ir_function :: ir_type where
  "ir_function =
     FunctionType
       [IntType False False False, PointerType (CharType False True False) False False]
       (IntType False False False)"

definition layout_basic :: data_layout where
  "layout_basic =
     [IntType False False False \<mapsto> \<lparr>Width = 32, Align = 32\<rparr>,
      CharType False True False \<mapsto> \<lparr>Width = 32, Align = 32\<rparr>,
      PointerType (CharType False True False) False False \<mapsto> \<lparr>Width = 64, Align = 64\<rparr>]"

definition layout_P :: data_layout where
  "layout_P = layout_basic(ir_struct_P \<mapsto> \<lparr>Width = 128, Align = 64\<rparr>)"

text \<open>A registry in which the four records are declared and nothing is defined yet,
  one in which \<open>S\<close> and \<open>P\<close> are defined as well, and an empty one. Every handle
  above 3 stands for an anonymous record.\<close>

definition ctx_declared :: translation_context where
  "ctx_declared =
     \<lparr>type_decls = {''S'', ''P'', ''T'', ''Q''}, type_defs = {},
      getDecl = example_decls, getTypeInfo = example_info\<rparr>"

definition ctx_defined :: translation_context where
  "ctx_defined =
     \<lparr>type_decls = {''S'', ''P''}, type_defs = {''S'', ''P''},
      getDecl = example_decls, getTypeInfo = example_info\<rparr>"

definition ctx_empty :: translation_context where
  "ctx_empty =
     \<lparr>type_decls = {}, type_defs = {},
      getDecl = example_decls, getTypeInfo = example_info\<rparr>"

section \<open>Evaluation rules\<close>

lemmas rule_defs =
  do_convert_def do_convert_record_def do_convert_pointer_def do_convert_array_def
  convert_function_def do_convert_enum_def do_convert_builtin_def getName_def
  isVoidType_def isBooleanType_def isIntegerType_def isUnsignedIntegerType_def
  isFloatingType_def isFunctionType_def Let_def

lemmas example_defs =
  ctx_declared_def ctx_defined_def ctx_empty_def example_decls_def example_info_def
  struct_S_def struct_P_def struct_T_def struct_Q_def
  no_quals_def const_quals_def volatile_quals_def
  example_function_def ir_struct_P_def ir_function_def layout_basic_def layout_P_def

section \<open>Outcomes\<close>

lemma outcome_cases [case_names Unfinished Failed Done]:
  fixes r :: "('e + 'a \<times> 'b) option"
  obtains "r = None" | e where "r = Some (Inl e)" | x dl where "r = Some (Inr (x, dl))"
proof (cases r)
  case None
  then show ?thesis by (rule that(1))
next
  case (Some s)
  then show ?thesis
    by (cases s) (auto intro: that)
qed

lemma ir_of_simps [simp]:
  "ir_of None = None"
  "ir_of (Some (Inl e)) = Some (Inl e)"
  "ir_of (Some (Inr (x, dl))) = Some (Inr x)"
  by (simp_all add: ir_of_def)

section \<open>Conversions as logged computations\<close>

lemma replay_Nil [simp]: "replay ctx dl [] = dl"
  by (simp add: replay_def)

lemma replay_append: "replay ctx dl (xs @ ys) = replay ctx (replay ctx dl xs) ys"
  by (simp add: replay_def)

lemma replay_snoc:
  "replay ctx dl (xs @ [(mty, aty)]) = try_emplace (replay ctx dl xs) mty aty ctx"
  by (simp add: replay_def)

lemma replay_Cons:
  "replay ctx dl ((mty, aty) # log) = replay ctx (try_emplace dl mty aty ctx) log"
  by (simp add: replay_def)

lemma logged_seq:
  "(case logged ctx r1 dl of
      None \<Rightarrow> None
    | Some (Inl e) \<Rightarrow> Some (Inl e)
    | Some (Inr (x, dl')) \<Rightarrow>
        (case logged ctx r2 dl' of
           None \<Rightarrow> None
         | Some (Inl e) \<Rightarrow> Some (Inl e)
         | Some (Inr (y, dl'')) \<Rightarrow> Some (Inr (f x y, dl''))))
   = logged ctx (then_logged r1 r2 f) dl"
  by (simp add: logged_def then_logged_def replay_append split: option.splits sum.splits)

lemma logged_map:
  "(case logged ctx r dl of
      None \<Rightarrow> None
    | Some (Inl e) \<Rightarrow> Some (Inl e)
    | Some (Inr (x, dl')) \<Rightarrow> Some (Inr (f x, dl')))
   = logged ctx (then_logged r (Some (Inr ((), []))) (\<lambda>x u. f x)) dl"
  by (simp add: logged_def then_logged_def split: option.splits sum.splits)

lemma logged_pure: "Some (Inr (x, dl)) = logged ctx (Some (Inr (x, []))) dl"
  by (simp add: logged_def)

lemma logged_fail: "Some (Inl e) = logged ctx (Some (Inl e)) dl"
  by (simp add: logged_def)

lemma plain_then_logged:
  "plain_result r1 \<Longrightarrow> plain_result r2 \<Longrightarrow> plain_result (then_logged r1 r2 f)"
  by (auto simp: plain_result_def then_logged_def plain_log_def split: option.splits sum.splits)

lemma plain_pure [simp]: "plain_result (Some (Inr (x, [])))"
  by (simp add: plain_result_def plain_log_def)

lemma plain_fail [simp]: "plain_result (Some (Inl e))"
  by (simp add: plain_result_def)

lemma convert_fields_logged:
  assumes cv: "\<And>ty q dl. cv ty q dl = logged ctx (lg ty q) dl"
    and plain: "\<And>ty q. plain_result (lg ty q)"
  shows "\<exists>r. plain_result r \<and> (\<forall>dl. convert_fields cv fs dl = logged ctx r dl)"
proof (induction fs)
  case Nil
  have "\<forall>dl. convert_fields cv [] dl = logged ctx (Some (Inr ([], []))) dl"
    by (simp add: logged_def)
  then show ?case
    by (intro exI [of _ "Some (Inr ([], []))"] conjI plain_pure)
next
  case (Cons field rest)
  then obtain r where r: "\<And>dl. convert_fields cv rest dl = logged ctx r dl"
    and pr: "plain_result r"
    by (elim exE conjE) simp
  let ?r = "then_logged (lg (fst (snd field)) (snd (snd field))) r (\<lambda>t fs. (fst field, t) # fs)"
  have "\<forall>dl. convert_fields cv (field # rest) dl = logged ctx ?r dl"
    by (simp add: cv r logged_seq cong: option.case_cong sum.case_cong)
  moreover have "plain_result ?r"
    using plain pr by (rule plain_then_logged)
  ultimately show ?case
    by (intro exI [of _ ?r] conjI)
qed

lemma convert_params_logged:
  assumes cv: "\<And>ty q dl. cv ty q dl = logged ctx (lg ty q) dl"
    and plain: "\<And>ty q. plain_result (lg ty q)"
  shows "\<exists>r. plain_result r \<and> (\<forall>dl. convert_params cv ps dl = logged ctx r dl)"
proof (induction ps)
  case Nil
  have "\<forall>dl. convert_params cv [] dl = logged ctx (Some (Inr ([], []))) dl"
    by (simp add: logged_def)
  then show ?case
    by (intro exI [of _ "Some (Inr ([], []))"] conjI plain_pure)
next
  case (Cons param rest)
  then obtain r where r: "\<And>dl. convert_params cv rest dl = logged ctx r dl"
    and pr: "plain_result r"
    by (elim exE conjE) simp
  let ?r = "then_logged (lg (fst param) (snd param)) r (\<lambda>t args. t # args)"
  have "\<forall>dl. convert_params cv (param # rest) dl = logged ctx ?r dl"
    by (simp add: cv r logged_seq cong: option.case_cong sum.case_cong)
  moreover have "plain_result ?r"
    using plain pr by (rule plain_then_logged)
  ultimately show ?case
    by (intro exI [of _ ?r] conjI)
qed

lemma do_convert_pointer_cases:
  "do_convert_pointer cv ctx p quals dl =
     (case tag_name_of ctx (getTypePtr (unwrapped_pointee p)) of
        Some name \<Rightarrow>
          if name \<in> type_decls ctx
          then Some (Inr (PointerType (NamedType name) (hasConst quals) (hasVolatile quals), dl))
          else pointer_to quals
                 (cv (getTypePtr (unwrapped_pointee p)) (getQualifiers (unwrapped_pointee p)) dl)
      | None \<Rightarrow>
          pointer_to quals
            (cv (getTypePtr (unwrapped_pointee p)) (getQualifiers (unwrapped_pointee p)) dl))"
  unfolding do_convert_pointer_def Let_def unwrapped_pointee_def [symmetric]
    tag_name_of_def [symmetric] pointer_to_def
  by (simp split: option.splits)

lemma do_convert_pointer_logged:
  assumes cv: "\<And>ty q dl. cv ty q dl = logged ctx (lg ty q) dl"
    and plain: "\<And>ty q. plain_result (lg ty q)"
  shows "\<exists>r. plain_result r \<and> (\<forall>dl. do_convert_pointer cv ctx p quals dl = logged ctx r dl)"
proof -
  let ?wrap = "\<lambda>t. PointerType t (hasConst quals) (hasVolatile quals)"
  let ?pointee = "unwrapped_pointee p"
  show ?thesis
  proof (cases "declared_tag ctx ?pointee")
    case True
    then obtain name where name: "tag_name_of ctx (getTypePtr ?pointee) = Some name"
      "name \<in> type_decls ctx"
      by (auto simp: declared_tag_def split: option.splits)
    then have "\<forall>dl. do_convert_pointer cv ctx p quals dl =
        logged ctx (Some (Inr (?wrap (NamedType name), []))) dl"
      by (simp add: do_convert_pointer_cases logged_def)
    then show ?thesis
      by (intro exI [of _ "Some (Inr (?wrap (NamedType name), []))"] conjI plain_pure)
  next
    case False
    let ?r = "then_logged (lg (fst ?pointee) (snd ?pointee)) (Some (Inr ((), [])))
       (\<lambda>t u. ?wrap t)"
    from False have "\<forall>dl. do_convert_pointer cv ctx p quals dl =
        pointer_to quals (cv (fst ?pointee) (snd ?pointee) dl)"
      by (simp add: do_convert_pointer_cases declared_tag_def split: option.splits)
    then have "\<forall>dl. do_convert_pointer cv ctx p quals dl = logged ctx ?r dl"
      by (simp add: cv logged_map pointer_to_def)
    moreover have "plain_result ?r"
      using plain plain_pure by (rule plain_then_logged)
    ultimately show ?thesis
      by (intro exI [of _ ?r] conjI)
  qed
qed

lemma do_convert_record_logged:
  assumes cv: "\<And>ty q dl. cv ty q dl = logged ctx (lg ty q) dl"
    and plain: "\<And>ty q. plain_result (lg ty q)"
  shows "\<exists>r. plain_result r \<and> (\<forall>dl. do_convert_record cv ctx decl quals dl = logged ctx r dl)"
proof -
  from convert_fields_logged [of cv ctx lg "decl_fields decl", OF cv plain]
  obtain r where pr: "plain_result r"
    and r: "\<And>dl. convert_fields cv (decl_fields decl) dl = logged ctx r dl"
    by (elim exE conjE) simp
  let ?name = "getName (getIdentifier decl)"
  let ?r = "if getIdentifier decl = None then Some (Inl AnonymousRecord)
            else if ?name \<notin> type_defs ctx then
              (if ?name \<notin> type_decls ctx then Some (Inl DeclarationOrderViolation)
               else then_logged r (Some (Inr ((), []))) (\<lambda>fs u. RecordType fs))
            else Some (Inr (NamedType ?name, []))"
  have "\<forall>dl. do_convert_record cv ctx decl quals dl = logged ctx ?r dl"
    by (auto simp: do_convert_record_def Let_def r logged_map logged_pure [symmetric]
        logged_fail [symmetric])
  moreover have "plain_result ?r"
    using pr by (simp add: plain_then_logged)
  ultimately show ?thesis
    by (intro exI [of _ ?r] conjI)
qed

lemma do_convert_array_logged:
  assumes cv: "\<And>ty q dl. cv ty q dl = logged ctx (lg ty q) dl"
    and plain: "\<And>ty q. plain_result (lg ty q)"
  shows "\<exists>r. plain_result r \<and> (\<forall>dl. do_convert_array cv elem bound quals dl = logged ctx r dl)"
proof -
  let ?r = "then_logged (lg (fst elem) (snd elem)) (Some (Inr ((), [])))
       (\<lambda>t u. ConstantArrayType t bound (hasConst quals) (hasVolatile quals))"
  have "\<forall>dl. do_convert_array cv elem bound quals dl = logged ctx ?r dl"
    by (simp add: do_convert_array_def cv logged_map)
  moreover have "plain_result ?r"
    using plain plain_pure by (rule plain_then_logged)
  ultimately show ?thesis
    by (intro exI [of _ ?r] conjI)
qed

lemma convert_function_logged:
  assumes cv: "\<And>ty q dl. cv ty q dl = logged ctx (lg ty q) dl"
    and plain: "\<And>ty q. plain_result (lg ty q)"
  shows "\<exists>r. plain_result r \<and> (\<forall>dl. convert_function cv prototype ret dl = logged ctx r dl)"
proof -
  let ?ps = "case prototype of None \<Rightarrow> [] | Some ps \<Rightarrow> ps"
  from convert_params_logged [of cv ctx lg ?ps, OF cv plain]
  obtain r where pr: "plain_result r"
    and r: "\<And>dl. convert_params cv ?ps dl = logged ctx r dl"
    by (elim exE conjE) simp
  let ?r = "then_logged r (lg (fst ret) (snd ret)) (\<lambda>args rty. FunctionType args rty)"
  have "\<forall>dl. convert_function cv prototype ret dl = logged ctx ?r dl"
    by (simp add: convert_function_def cv r logged_seq cong: option.case_cong sum.case_cong)
  moreover have "plain_result ?r"
    using pr plain by (rule plain_then_logged)
  ultimately show ?thesis
    by (intro exI [of _ ?r] conjI)
qed

lemma do_convert_logged:
  assumes cv: "\<And>ty q dl. cv ty q dl = logged ctx (lg ty q) dl"
    and plain: "\<And>ty q. plain_result (lg ty q)"
  shows "\<exists>r. plain_result r \<and> (\<forall>dl. do_convert cv ctx ty quals dl = logged ctx r dl)"
proof (cases "getUnqualifiedDesugaredType ty")
  case (Clang_BuiltinType k)
  let ?r = "case do_convert_builtin k quals of Inl e \<Rightarrow> Some (Inl e) | Inr t \<Rightarrow> Some (Inr (t, []))"
  have "\<forall>dl. do_convert cv ctx ty quals dl = logged ctx ?r dl"
    by (simp add: do_convert_def Clang_BuiltinType logged_def split: sum.splits)
  moreover have "plain_result ?r"
    by (simp split: sum.splits)
  ultimately show ?thesis
    by (intro exI [of _ ?r] conjI)
next
  case (Clang_PointerType p)
  then show ?thesis
    using do_convert_pointer_logged [of cv ctx lg p quals, OF cv plain]
    by (simp add: do_convert_def)
next
  case (Clang_RecordType d)
  then show ?thesis
    using do_convert_record_logged [of cv ctx lg "getDecl ctx d" quals, OF cv plain]
    by (simp add: do_convert_def)
next
  case (Clang_EnumType ident)
  let ?r = "case do_convert_enum ident quals of Inl e \<Rightarrow> Some (Inl e) | Inr t \<Rightarrow> Some (Inr (t, []))"
  have "\<forall>dl. do_convert cv ctx ty quals dl = logged ctx ?r dl"
    by (simp add: do_convert_def Clang_EnumType logged_def split: sum.splits)
  moreover have "plain_result ?r"
    by (simp split: sum.splits)
  ultimately show ?thesis
    by (intro exI [of _ ?r] conjI)
next
  case (Clang_ConstantArrayType elem bound)
  then show ?thesis
    using do_convert_array_logged [of cv ctx lg elem bound quals, OF cv plain]
    by (simp add: do_convert_def)
next
  case (Clang_FunctionType prototype ret)
  then show ?thesis
    using convert_function_logged [of cv ctx lg prototype ret, OF cv plain]
    by (simp add: do_convert_def)
next
  case (Clang_TypedefType t)
  then have "\<forall>dl. do_convert cv ctx ty quals dl = logged ctx (Some (Inl UnknownClangType)) dl"
    by (simp add: do_convert_def logged_def)
  then show ?thesis
    by (intro exI [of _ "Some (Inl UnknownClangType)"] conjI plain_fail)
next
  case (Clang_ElaboratedType t)
  then have "\<forall>dl. do_convert cv ctx ty quals dl = logged ctx (Some (Inl UnknownClangType)) dl"
    by (simp add: do_convert_def logged_def)
  then show ?thesis
    by (intro exI [of _ "Some (Inl UnknownClangType)"] conjI plain_fail)
next
  case Clang_OtherType
  then have "\<forall>dl. do_convert cv ctx ty quals dl = logged ctx (Some (Inl UnknownClangType)) dl"
    by (simp add: do_convert_def logged_def)
  then show ?thesis
    by (intro exI [of _ "Some (Inl UnknownClangType)"] conjI plain_fail)
qed

text \<open>The outermost node of a conversion is a function type exactly for function types.\<close>

lemma do_convert_builtin_not_function:
  "do_convert_builtin k quals = Inr t \<Longrightarrow> \<not> is_function_ir t"
  by (auto simp: do_convert_builtin_def Let_def split: if_splits sum.splits IntegerKind.splits
      FloatingKind.splits)

lemma do_convert_shape:
  assumes "do_convert cv ctx ty quals dl = Some (Inr (out, dl'))"
  shows "is_function_ir out = isFunctionType ty"
proof (cases "getUnqualifiedDesugaredType ty")
  case (Clang_BuiltinType k)
  with assms show ?thesis
    by (auto simp: do_convert_def isFunctionType_def dest: do_convert_builtin_not_function
        split: sum.splits)
next
  case (Clang_PointerType p)
  with assms show ?thesis
    by (auto simp: do_convert_def isFunctionType_def do_convert_pointer_cases pointer_to_def
        split: option.splits sum.splits if_splits)
next
  case (Clang_RecordType d)
  with assms show ?thesis
    by (auto simp: do_convert_def isFunctionType_def do_convert_record_def Let_def
        split: option.splits sum.splits if_splits)
next
  case (Clang_EnumType ident)
  with assms show ?thesis
    by (auto simp: do_convert_def isFunctionType_def do_convert_enum_def
        split: sum.splits if_splits)
next
  case (Clang_ConstantArrayType elem bound)
  with assms show ?thesis
    by (auto simp: do_convert_def isFunctionType_def do_convert_array_def
        split: option.splits sum.splits)
next
  case (Clang_FunctionType prototype ret)
  with assms show ?thesis
    by (auto simp: do_convert_def isFunctionType_def convert_function_def
        split: option.splits sum.splits)
qed (use assms in \<open>simp_all add: do_convert_def\<close>)

text \<open>Every conversion is a logged computation: its result and its log do not depend
  on the table it starts from.\<close>

lemma dl_aware_convert_logged:
  "\<exists>r. plain_result r \<and> (\<forall>dl. dl_aware_convert n ctx ty quals dl = logged ctx r dl)"
proof (induction n arbitrary: ty quals)
  case 0
  have "\<forall>dl. dl_aware_convert 0 ctx ty quals dl = logged ctx None dl"
    by (simp add: logged_def)
  moreover have "plain_result (None :: (error + ir_type \<times> emplace_log) option)"
    by (simp add: plain_result_def)
  ultimately show ?case
    by (intro exI [of _ None] conjI)
next
  case (Suc n)
  then have "\<forall>tq. \<exists>r. plain_result r \<and>
      (\<forall>dl. dl_aware_convert n ctx (fst tq) (snd tq) dl = logged ctx r dl)"
    by simp
  then obtain f where f: "\<forall>tq. plain_result (f tq) \<and>
      (\<forall>dl. dl_aware_convert n ctx (fst tq) (snd tq) dl = logged ctx (f tq) dl)"
    by (rule choice [THEN exE])
  define lg where "lg = (\<lambda>ty q. f (ty, q))"
  have cv: "\<And>ty q dl. dl_aware_convert n ctx ty q dl = logged ctx (lg ty q) dl"
    and plain: "\<And>ty q. plain_result (lg ty q)"
    using f by (simp_all add: lg_def)
  from do_convert_logged [of "dl_aware_convert n ctx" ctx lg ty quals, OF cv plain]
  obtain r where pr: "plain_result r"
    and r: "\<And>dl. do_convert (dl_aware_convert n ctx) ctx ty quals dl = logged ctx r dl"
    by (elim exE conjE) simp
  let ?r = "case r of
      None \<Rightarrow> None
    | Some (Inl e) \<Rightarrow> Some (Inl e)
    | Some (Inr (out, log)) \<Rightarrow>
        Some (Inr (out, if \<not> isFunctionType ty then log @ [(out, ty)] else log))"
  have "\<forall>dl. dl_aware_convert (Suc n) ctx ty quals dl = logged ctx ?r dl"
    by (simp add: r logged_def replay_snoc split: option.splits sum.splits)
  moreover have "plain_result ?r"
  proof (cases r)
    case None
    then show ?thesis by (simp add: plain_result_def)
  next
    case (Some x)
    show ?thesis
    proof (cases x)
      case (Inl e)
      with Some show ?thesis by (simp add: plain_result_def)
    next
      case (Inr p)
      obtain out log where p: "p = (out, log)" by (cases p)
      have "do_convert (dl_aware_convert n ctx) ctx ty quals Map.empty =
          Some (Inr (out, replay ctx Map.empty log))"
        by (simp add: r Some Inr p logged_def)
      then have "is_function_ir out = isFunctionType ty"
        by (rule do_convert_shape)
      with pr Some Inr p show ?thesis
        by (simp add: plain_result_def plain_log_def)
    qed
  qed
  ultimately show ?case
    by (intro exI [of _ ?r] conjI)
qed

lemma dl_aware_convert_shape:
  assumes "dl_aware_convert n ctx ty q dl = Some (Inr (out, dl'))"
  shows "is_function_ir out = isFunctionType ty"
proof (cases n)
  case 0
  with assms show ?thesis by simp
next
  case (Suc m)
  with assms obtain dl0 where "do_convert (dl_aware_convert m ctx) ctx ty q dl = Some (Inr (out, dl0))"
    by (cases "do_convert (dl_aware_convert m ctx) ctx ty q dl" rule: outcome_cases) auto
  then show ?thesis
    by (rule do_convert_shape)
qed

lemma ir_of_logged: "ir_of (logged ctx r dl) = map_option (map_sum id fst) r"
  by (simp add: ir_of_def logged_def split: option.splits sum.splits)

lemma dl_aware_convert_ir_independent:
  "ir_of (dl_aware_convert n ctx ty q dl) = ir_of (dl_aware_convert n ctx ty q dl')"
proof -
  from dl_aware_convert_logged [of n ctx ty q]
  obtain r where "\<And>dl. dl_aware_convert n ctx ty q dl = logged ctx r dl"
    by (elim exE conjE) simp
  then show ?thesis
    by (simp add: ir_of_logged)
qed

section \<open>The data layout table\<close>

lemma try_emplace_idem:
  "try_emplace (try_emplace dl mty aty ctx) mty aty' ctx = try_emplace dl mty aty ctx"
  by (simp add: try_emplace_def split: option.splits)

lemma try_emplace_other: "k \<noteq> mty \<Longrightarrow> try_emplace dl mty aty ctx k = dl k"
  by (simp add: try_emplace_def split: option.splits)

lemma try_emplace_present: "dl mty = Some e \<Longrightarrow> try_emplace dl mty aty ctx = dl"
  by (simp add: try_emplace_def)

lemma dom_try_emplace: "dom (try_emplace dl mty aty ctx) = insert mty (dom dl)"
  by (auto simp: try_emplace_def split: option.splits)

lemma try_emplace_map_le: "dl \<subseteq>\<^sub>m try_emplace dl mty aty ctx"
  by (auto simp: try_emplace_def map_le_def split: option.splits)

lemma replay_absorbed: "fst ` set log \<subseteq> dom dl \<Longrightarrow> replay ctx dl log = dl"
proof (induction log)
  case Nil
  show ?case by simp
next
  case (Cons x log)
  obtain mty aty where x: "x = (mty, aty)" by (cases x)
  from Cons.prems obtain e where "dl mty = Some e"
    by (auto simp: x)
  then have "try_emplace dl mty aty ctx = dl"
    by (rule try_emplace_present)
  with Cons show ?case
    by (simp add: x replay_Cons)
qed

lemma dom_replay: "dom (replay ctx dl log) = dom dl \<union> fst ` set log"
proof (induction log arbitrary: dl)
  case Nil
  show ?case by simp
next
  case (Cons x log)
  obtain mty aty where x: "x = (mty, aty)" by (cases x)
  show ?case
    by (simp add: x replay_Cons Cons.IH dom_try_emplace)
qed

lemma replay_idem: "replay ctx (replay ctx dl log) log = replay ctx dl log"
  by (rule replay_absorbed) (simp add: dom_replay)

lemma replay_map_le: "dl \<subseteq>\<^sub>m replay ctx dl log"
proof (induction log arbitrary: dl)
  case Nil
  show ?case by simp
next
  case (Cons x log)
  obtain mty aty where x: "x = (mty, aty)" by (cases x)
  have "dl \<subseteq>\<^sub>m try_emplace dl mty aty ctx"
    by (rule try_emplace_map_le)
  also have "try_emplace dl mty aty ctx \<subseteq>\<^sub>m replay ctx (try_emplace dl mty aty ctx) log"
    by (rule Cons.IH)
  finally show ?case
    by (simp add: x replay_Cons)
qed

lemma replay_function_keys:
  "plain_log log \<Longrightarrow> is_function_ir k \<Longrightarrow> replay ctx dl log k = dl k"
proof (induction log arbitrary: dl)
  case Nil
  show ?case by simp
next
  case (Cons x log)
  obtain mty aty where x: "x = (mty, aty)" by (cases x)
  from Cons.prems have "k \<noteq> mty" and "plain_log log"
    by (auto simp: plain_log_def x)
  with Cons.IH [of "try_emplace dl mty aty ctx"] Cons.prems(2) show ?case
    by (simp add: x replay_Cons try_emplace_other)
qed

section \<open>The depth bound\<close>

text \<open>A larger depth bound changes no outcome that a smaller bound already gave: an
  outcome other than \<open>None\<close> is the outcome of the C++ function.\<close>

lemma convert_fields_mono:
  assumes ext: "\<And>ty q dl r. cv ty q dl = Some r \<Longrightarrow> cv' ty q dl = Some r"
  shows "convert_fields cv fs dl = Some r \<Longrightarrow> convert_fields cv' fs dl = Some r"
proof (induction fs arbitrary: dl r)
  case Nil
  then show ?case by simp
next
  case (Cons field rest)
  let ?ty = "getTypePtr (snd field)" and ?q = "getQualifiers (snd field)"
  show ?case
  proof (cases "cv ?ty ?q dl" rule: outcome_cases)
    case Unfinished
    with Cons.prems show ?thesis by simp
  next
    case (Failed e)
    with Cons.prems ext [OF Failed] show ?thesis by simp
  next
    case (Done t dl1)
    show ?thesis
    proof (cases "convert_fields cv rest dl1")
      case None
      with Cons.prems Done show ?thesis by simp
    next
      case (Some x)
      then have "convert_fields cv' rest dl1 = Some x"
        by (rule Cons.IH)
      with Cons.prems Done Some ext [OF Done] show ?thesis by simp
    qed
  qed
qed

lemma convert_params_mono:
  assumes ext: "\<And>ty q dl r. cv ty q dl = Some r \<Longrightarrow> cv' ty q dl = Some r"
  shows "convert_params cv ps dl = Some r \<Longrightarrow> convert_params cv' ps dl = Some r"
proof (induction ps arbitrary: dl r)
  case Nil
  then show ?case by simp
next
  case (Cons param rest)
  let ?ty = "getTypePtr param" and ?q = "getQualifiers param"
  show ?case
  proof (cases "cv ?ty ?q dl" rule: outcome_cases)
    case Unfinished
    with Cons.prems show ?thesis by simp
  next
    case (Failed e)
    with Cons.prems ext [OF Failed] show ?thesis by simp
  next
    case (Done t dl1)
    show ?thesis
    proof (cases "convert_params cv rest dl1")
      case None
      with Cons.prems Done show ?thesis by simp
    next
      case (Some x)
      then have "convert_params cv' rest dl1 = Some x"
        by (rule Cons.IH)
      with Cons.prems Done Some ext [OF Done] show ?thesis by simp
    qed
  qed
qed

lemma pointer_to_Some:
  "pointer_to q r = Some x \<Longrightarrow> \<exists>y. r = Some y"
  by (cases r) (simp_all add: pointer_to_def)

lemma do_convert_mono:
  assumes ext: "\<And>ty q dl r. cv ty q dl = Some r \<Longrightarrow> cv' ty q dl = Some r"
    and res: "do_convert cv ctx ty q dl = Some r"
  shows "do_convert cv' ctx ty q dl = Some r"
proof (cases "getUnqualifiedDesugaredType ty")
  case (Clang_PointerType p)
  let ?c = "\<lambda>cv. cv (getTypePtr (unwrapped_pointee p)) (getQualifiers (unwrapped_pointee p)) dl"
  show ?thesis
  proof (cases "declared_tag ctx (unwrapped_pointee p)")
    case True
    with res Clang_PointerType show ?thesis
      by (auto simp: do_convert_def do_convert_pointer_cases declared_tag_def
          split: option.splits)
  next
    case False
    then have eq: "do_convert cv ctx ty q dl = pointer_to q (?c cv)"
      "do_convert cv' ctx ty q dl = pointer_to q (?c cv')"
      using Clang_PointerType
      by (auto simp: do_convert_def do_convert_pointer_cases declared_tag_def
          split: option.splits)
    from res eq(1) obtain y where "?c cv = Some y"
      by (auto dest: pointer_to_Some)
    with ext [OF this] res eq show ?thesis by simp
  qed
next
  case (Clang_RecordType d)
  let ?fs = "decl_fields (getDecl ctx d)"
  show ?thesis
  proof (cases "convert_fields cv ?fs dl")
    case None
    with res Clang_RecordType show ?thesis
      by (auto simp: do_convert_def do_convert_record_def Let_def split: if_splits)
  next
    case (Some x)
    then have "convert_fields cv' ?fs dl = Some x"
      by (rule convert_fields_mono [rotated]) (rule ext)
    with Some have "do_convert_record cv' ctx (getDecl ctx d) q dl =
        do_convert_record cv ctx (getDecl ctx d) q dl"
      by (simp add: do_convert_record_def Let_def cong: if_cong)
    with res Clang_RecordType show ?thesis
      by (simp add: do_convert_def)
  qed
next
  case (Clang_ConstantArrayType elem bound)
  show ?thesis
  proof (cases "cv (getTypePtr elem) (getQualifiers elem) dl")
    case None
    with res Clang_ConstantArrayType show ?thesis
      by (simp add: do_convert_def do_convert_array_def)
  next
    case (Some x)
    with res Clang_ConstantArrayType ext [OF Some] show ?thesis
      by (simp add: do_convert_def do_convert_array_def)
  qed
next
  case (Clang_FunctionType prototype ret)
  let ?ps = "case prototype of None \<Rightarrow> [] | Some ps \<Rightarrow> ps"
  show ?thesis
  proof (cases "convert_params cv ?ps dl" rule: outcome_cases)
    case Unfinished
    with res Clang_FunctionType show ?thesis
      by (simp add: do_convert_def convert_function_def)
  next
    case (Failed e)
    then have "convert_params cv' ?ps dl = Some (Inl e)"
      by (rule convert_params_mono [rotated]) (rule ext)
    with res Clang_FunctionType Failed show ?thesis
      by (simp add: do_convert_def convert_function_def)
  next
    case (Done args dl1)
    then have ps: "convert_params cv' ?ps dl = Some (Inr (args, dl1))"
      by (rule convert_params_mono [rotated]) (rule ext)
    show ?thesis
    proof (cases "cv (getTypePtr ret) (getQualifiers ret) dl1")
      case None
      with res Clang_FunctionType Done show ?thesis
        by (simp add: do_convert_def convert_function_def)
    next
      case (Some x)
      with res Clang_FunctionType Done ps ext [OF Some] show ?thesis
        by (simp add: do_convert_def convert_function_def)
    qed
  qed
qed (use res in \<open>simp_all add: do_convert_def\<close>)

lemma dl_aware_convert_Suc_mono:
  "dl_aware_convert n ctx ty q dl = Some r \<Longrightarrow> dl_aware_convert (Suc n) ctx ty q dl = Some r"
proof (induction n arbitrary: ty q dl r)
  case 0
  then show ?case by simp
next
  case (Suc n)
  from Suc.prems obtain x where x: "do_convert (dl_aware_convert n ctx) ctx ty q dl = Some x"
    by (cases "do_convert (dl_aware_convert n ctx) ctx ty q dl") simp_all
  then have "do_convert (dl_aware_convert (Suc n) ctx) ctx ty q dl = Some x"
    by (rule do_convert_mono [rotated]) (rule Suc.IH)
  with Suc.prems x show ?case
    by (simp del: dl_aware_convert.simps add: dl_aware_convert.simps(2) [of "Suc n"]
        dl_aware_convert.simps(2) [of n])
qed

lemma dl_aware_convert_mono:
  assumes "dl_aware_convert n ctx ty q dl = Some r" and "n \<le> m"
  shows "dl_aware_convert m ctx ty q dl = Some r"
  using assms(2)
proof (induction m)
  case 0
  with assms(1) show ?case by simp
next
  case (Suc m)
  show ?case
  proof (cases "n = Suc m")
    case True
    with assms(1) show ?thesis by simp
  next
    case False
    with Suc.prems have "n \<le> m" by simp
    then have "dl_aware_convert m ctx ty q dl = Some r"
      by (rule Suc.IH)
    then show ?thesis
      by (rule dl_aware_convert_Suc_mono)
  qed
qed

section \<open>Expanding a record\<close>

lemma convert_fields_in_order:
  assumes indep: "\<And>ty q dl dl'. ir_of (cv ty q dl) = ir_of (cv ty q dl')"
  shows "ir_of (convert_fields cv fs dl) =
    fields_in_order (\<lambda>fty. ir_of (cv (getTypePtr fty) (getQualifiers fty) dl0)) fs"
proof (induction fs arbitrary: dl)
  case Nil
  show ?case by simp
next
  case (Cons field rest)
  let ?c = "cv (getTypePtr (snd field)) (getQualifiers (snd field))"
  have i: "ir_of (?c dl0) = ir_of (?c dl)"
    by (rule indep)
  show ?case
  proof (cases "?c dl")
    case None
    with i show ?thesis by simp
  next
    case (Some x)
    show ?thesis
    proof (cases x)
      case (Inl e)
      with Some i show ?thesis by simp
    next
      case (Inr p)
      obtain t dl1 where p: "p = (t, dl1)" by (cases p)
      have "ir_of (?c dl0) = Some (Inr t)"
        using i Some Inr p by simp
      moreover have "fields_in_order
          (\<lambda>fty. ir_of (cv (getTypePtr fty) (getQualifiers fty) dl0)) rest =
          ir_of (convert_fields cv rest dl1)"
        by (rule Cons.IH [symmetric])
      ultimately show ?thesis
        using Some Inr p
        by (cases "convert_fields cv rest dl1" rule: outcome_cases) auto
    qed
  qed
qed

lemma fields_in_order_all:
  "list_all2 (\<lambda>fld t. f (snd fld) = Some (Inr t)) fs ts \<Longrightarrow>
     fields_in_order f fs = Some (Inr (zip (map fst fs) ts))"
  by (induction rule: list_all2_induct) simp_all

lemma ir_of_record:
  "ir_of (case r of None \<Rightarrow> None | Some (Inl e) \<Rightarrow> Some (Inl e)
          | Some (Inr (fs, dl')) \<Rightarrow> Some (Inr (RecordType fs, dl')))
   = record_of (ir_of r)"
  by (simp add: ir_of_def record_of_def split: option.splits sum.splits)

lemma ir_of_dl_aware_convert_Suc:
  "ir_of (dl_aware_convert (Suc n) ctx ty q dl) =
     ir_of (do_convert (dl_aware_convert n ctx) ctx ty q dl)"
  by (simp add: ir_of_def split: option.splits sum.splits)

lemma expanded_record_ir:
  assumes "getUnqualifiedDesugaredType ty = Clang_RecordType d"
    and "getIdentifier (getDecl ctx d) = Some name"
    and "name \<notin> type_defs ctx" and "name \<in> type_decls ctx"
  shows "ir_of (dl_aware_convert (Suc n) ctx ty q dl) =
    record_of (fields_in_order (\<lambda>fty. ir_of (convert n ctx fty dl0))
      (decl_fields (getDecl ctx d)))"
proof -
  have "ir_of (dl_aware_convert (Suc n) ctx ty q dl) =
      record_of (ir_of (convert_fields (dl_aware_convert n ctx) (decl_fields (getDecl ctx d)) dl))"
    unfolding ir_of_dl_aware_convert_Suc using assms
    by (simp add: do_convert_def do_convert_record_def getName_def ir_of_record)
  also have "ir_of (convert_fields (dl_aware_convert n ctx) (decl_fields (getDecl ctx d)) dl) =
      fields_in_order (\<lambda>fty. ir_of (dl_aware_convert n ctx (getTypePtr fty) (getQualifiers fty) dl0))
        (decl_fields (getDecl ctx d))"
    by (rule convert_fields_in_order) (rule dl_aware_convert_ir_independent)
  finally show ?thesis
    by (simp add: convert_def convert_type_def)
qed

section \<open>Records that point to themselves\<close>

lemma self_pointer_field:
  assumes "points_to_record d fty"
    and "getIdentifier (getDecl ctx d) = Some name"
    and "name \<in> type_decls ctx"
  shows "ir_of (convert (Suc n) ctx fty dl) =
    Some (Inr (PointerType (NamedType name) (hasConst (getQualifiers fty))
      (hasVolatile (getQualifiers fty))))"
proof -
  from assms(1) obtain p where p: "getUnqualifiedDesugaredType (getTypePtr fty) = Clang_PointerType p"
    and u: "getTypePtr (unwrapped_pointee p) = Clang_RecordType d"
    by (auto simp: points_to_record_def split: clang_type.splits)
  have "tag_name_of ctx (getTypePtr (unwrapped_pointee p)) = Some name"
    using u assms(2) by (simp add: tag_name_of_def getName_def)
  then show ?thesis
    using p assms(3)
    by (simp add: convert_def convert_type_def do_convert_def do_convert_pointer_cases)
qed

text \<open>
  The direct form. Take a type that desugars to a named record whose name is in the
  declared set. A field that is a pointer to the record itself (\<open>points_to_record\<close>)
  converts, with any depth bound of at least one and from any table, to
  \<open>PointerType (NamedType name)\<close> with the field's own const and volatile bits. The
  record converts with every depth bound \<open>Suc (Suc n)\<close> as soon as its other fields
  convert with the bound \<open>Suc n\<close>: the pointers to the record itself need no bound of
  their own, so the conversion of \<^verbatim>\<open>struct S { struct S *next; }\<close> ends and gives
  \<open>RecordType [(next, PointerType (NamedType S) False False)]\<close>. (When the name is also
  in the defined set the result is \<open>NamedType name\<close>, by the repeat-reference path.)
\<close>

theorem self_referential_record:
  assumes "getUnqualifiedDesugaredType ty = Clang_RecordType d"
    and "getIdentifier (getDecl ctx d) = Some name"
    and "name \<in> type_decls ctx"
  shows "(points_to_record d fty \<longrightarrow>
           ir_of (convert (Suc m) ctx fty dl') =
             Some (Inr (PointerType (NamedType name) (hasConst (getQualifiers fty))
               (hasVolatile (getQualifiers fty)))))
    \<and> (list_all2
          (\<lambda>fld t.
             if points_to_record d (snd fld)
             then t = PointerType (NamedType name) (hasConst (getQualifiers (snd fld)))
                        (hasVolatile (getQualifiers (snd fld)))
             else ir_of (convert (Suc n) ctx (snd fld) dl) = Some (Inr t))
          (decl_fields (getDecl ctx d)) ts \<longrightarrow>
        ir_of (dl_aware_convert (Suc (Suc n)) ctx ty q dl) =
          Some (Inr (if name \<in> type_defs ctx then NamedType name
                     else RecordType (zip (map fst (decl_fields (getDecl ctx d))) ts))))"
proof (intro conjI impI)
  assume "points_to_record d fty"
  then show "ir_of (convert (Suc m) ctx fty dl') =
      Some (Inr (PointerType (NamedType name) (hasConst (getQualifiers fty))
        (hasVolatile (getQualifiers fty))))"
    using assms(2,3) by (rule self_pointer_field)
next
  let ?fs = "decl_fields (getDecl ctx d)"
  assume l: "list_all2
          (\<lambda>fld t.
             if points_to_record d (snd fld)
             then t = PointerType (NamedType name) (hasConst (getQualifiers (snd fld)))
                        (hasVolatile (getQualifiers (snd fld)))
             else ir_of (convert (Suc n) ctx (snd fld) dl) = Some (Inr t))
          ?fs ts"
  have all: "list_all2 (\<lambda>fld t. ir_of (convert (Suc n) ctx (snd fld) dl) = Some (Inr t)) ?fs ts"
    using l
  proof (rule list_all2_mono)
    fix fld t
    assume "if points_to_record d (snd fld)
             then t = PointerType (NamedType name) (hasConst (getQualifiers (snd fld)))
                        (hasVolatile (getQualifiers (snd fld)))
             else ir_of (convert (Suc n) ctx (snd fld) dl) = Some (Inr t)"
    then show "ir_of (convert (Suc n) ctx (snd fld) dl) = Some (Inr t)"
      using self_pointer_field [OF _ assms(2,3), of "snd fld" n dl]
      by (simp split: if_splits)
  qed
  show "ir_of (dl_aware_convert (Suc (Suc n)) ctx ty q dl) =
          Some (Inr (if name \<in> type_defs ctx then NamedType name
                     else RecordType (zip (map fst ?fs) ts)))"
  proof (cases "name \<in> type_defs ctx")
    case True
    then show ?thesis
      using assms by (simp add: do_convert_def do_convert_record_def getName_def)
  next
    case False
    have "ir_of (dl_aware_convert (Suc (Suc n)) ctx ty q dl) =
        record_of (fields_in_order (\<lambda>fty. ir_of (convert (Suc n) ctx fty dl)) ?fs)"
      using assms(1,2) False assms(3) by (rule expanded_record_ir)
    then show ?thesis
      using False fields_in_order_all [OF all] by (simp add: record_of_def)
  qed
qed

theorem self_referential_record_witness:
  "getUnqualifiedDesugaredType (Clang_RecordType 0) = Clang_RecordType 0
   \<and> getIdentifier (getDecl ctx_declared 0) = Some ''S''
   \<and> ''S'' \<in> type_decls ctx_declared
   \<and> points_to_record 0
       (Clang_PointerType (Clang_ElaboratedType (Clang_RecordType 0, no_quals), no_quals), no_quals)
   \<and> ir_of (convert (Suc 0) ctx_declared
       (Clang_PointerType (Clang_ElaboratedType (Clang_RecordType 0, no_quals), no_quals), no_quals)
       Map.empty) = Some (Inr (PointerType (NamedType ''S'') False False))
   \<and> ir_of (dl_aware_convert (Suc (Suc 0)) ctx_declared (Clang_RecordType 0) no_quals Map.empty) =
       Some (Inr (RecordType [(''next'', PointerType (NamedType ''S'') False False)]))"
proof -
  let ?next = "(Clang_PointerType (Clang_ElaboratedType (Clang_RecordType 0, no_quals), no_quals),
    no_quals)"
  let ?ts = "[PointerType (NamedType ''S'') False False]"
  have h: "getUnqualifiedDesugaredType (Clang_RecordType 0) = Clang_RecordType 0"
    "getIdentifier (getDecl ctx_declared 0) = Some ''S''"
    "''S'' \<in> type_decls ctx_declared"
    and nd: "''S'' \<notin> type_defs ctx_declared"
    by (simp_all add: example_defs)
  have fs: "decl_fields (getDecl ctx_declared 0) = [(''next'', ?next)]"
    by (simp add: ctx_declared_def example_decls_def struct_S_def)
  have p: "points_to_record 0 ?next"
    by (simp add: points_to_record_def unwrapped_pointee_def)
  have q: "hasConst (getQualifiers ?next) = False" "hasVolatile (getQualifiers ?next) = False"
    by (simp_all add: no_quals_def)
  have l: "list_all2
          (\<lambda>fld t.
             if points_to_record 0 (snd fld)
             then t = PointerType (NamedType ''S'') (hasConst (getQualifiers (snd fld)))
                        (hasVolatile (getQualifiers (snd fld)))
             else ir_of (convert (Suc 0) ctx_declared (snd fld) Map.empty) = Some (Inr t))
          (decl_fields (getDecl ctx_declared 0)) ?ts"
    unfolding fs using p by (simp add: no_quals_def)
  note t = self_referential_record [OF h, of ?next 0 Map.empty 0 Map.empty ?ts no_quals]
  have a: "ir_of (convert (Suc 0) ctx_declared ?next Map.empty) =
      Some (Inr (PointerType (NamedType ''S'') False False))"
    using t p unfolding q by blast
  have "ir_of (dl_aware_convert (Suc (Suc 0)) ctx_declared (Clang_RecordType 0) no_quals
      Map.empty) =
      Some (Inr (if ''S'' \<in> type_defs ctx_declared then NamedType ''S''
         else RecordType (zip (map fst (decl_fields (getDecl ctx_declared 0))) ?ts)))"
    using t l by blast
  then have b: "ir_of (dl_aware_convert (Suc (Suc 0)) ctx_declared (Clang_RecordType 0) no_quals
      Map.empty) = Some (Inr (RecordType [(''next'', PointerType (NamedType ''S'') False False)]))"
    unfolding fs using nd by simp
  show ?thesis
    using h p a b by (intro conjI)
qed

text \<open>
  The typedef form. In \<^verbatim>\<open>typedef struct T T_t; struct T { T_t *next; };\<close> the pointee
  of \<open>next\<close> is the typedef. The record, the pointer and the typedef call each other
  through the entry point, and none of the three conversions returns.
\<close>

lemma typedef_self_pointer_unfinished:
  "dl_aware_convert n ctx_declared (Clang_RecordType 2) q dl = None
   \<and> dl_aware_convert n ctx_declared
        (Clang_PointerType
           (Clang_TypedefType (Clang_ElaboratedType (Clang_RecordType 2, no_quals), no_quals),
            no_quals)) q dl = None
   \<and> dl_aware_convert n ctx_declared
        (Clang_TypedefType (Clang_ElaboratedType (Clang_RecordType 2, no_quals), no_quals))
        q dl = None"
proof (induction n arbitrary: q dl)
  case 0
  show ?case by simp
next
  case (Suc n)
  let ?td = "Clang_TypedefType (Clang_ElaboratedType (Clang_RecordType 2, no_quals), no_quals)"
  let ?cv = "dl_aware_convert n ctx_declared"
  have d: "getDecl ctx_declared 2 = struct_T"
    by (simp add: ctx_declared_def example_decls_def)
  have ptr: "?cv (Clang_PointerType (?td, no_quals)) no_quals dl = None" for dl
    using Suc.IH by blast
  have td: "?cv ?td no_quals dl = None" for dl
    using Suc.IH by blast
  have fs: "convert_fields ?cv (decl_fields struct_T) dl = None" for dl
    by (simp add: struct_T_def ptr)
  have name: "getIdentifier struct_T = Some ''T''"
    by (simp add: struct_T_def)
  have reg: "''T'' \<in> type_decls ctx_declared" "''T'' \<notin> type_defs ctx_declared"
    by (simp_all add: ctx_declared_def)
  have expand: "do_convert_record ?cv ctx_declared struct_T q dl = None" for q dl
    by (simp add: do_convert_record_def fs getName_def name reg)
  have pointer: "do_convert_pointer ?cv ctx_declared (?td, no_quals) q dl = None" for q dl
    by (simp add: do_convert_pointer_def td)
  show ?case
    by (simp add: do_convert_def d expand pointer)
qed

text \<open>
  Claim C1. Recursion safety holds when a field points to the record directly (see
  \<open>self_referential_record\<close>), and not for every record that contains a pointer to
  itself. In \<^verbatim>\<open>typedef struct T T_t; struct T { T_t *next; };\<close> the pointee of \<open>next\<close>
  is the typedef: it is neither an elaborated type nor a tag type, so the pointer rule
  does not look up its name and converts it through the entry point, which desugars it
  to the record and expands the fields again. With \<open>T\<close> declared and not yet defined
  the conversion returns for no depth bound, from any table and with any qualifiers.
\<close>

theorem typedef_self_pointer_never_returns:
  "getIdentifier (getDecl ctx_declared 2) = Some ''T''
   \<and> ''T'' \<in> type_decls ctx_declared
   \<and> decl_fields (getDecl ctx_declared 2) =
       [(''next'',
         (Clang_PointerType
            (Clang_TypedefType (Clang_ElaboratedType (Clang_RecordType 2, no_quals), no_quals),
             no_quals),
          no_quals))]
   \<and> getUnqualifiedDesugaredType
       (Clang_TypedefType (Clang_ElaboratedType (Clang_RecordType 2, no_quals), no_quals))
       = Clang_RecordType 2
   \<and> dl_aware_convert n ctx_declared (Clang_RecordType 2) q dl = None"
  using typedef_self_pointer_unfinished [of n q dl]
  by (simp add: ctx_declared_def example_decls_def struct_T_def)

section \<open>Pointer types\<close>

text \<open>
  Claim C2. Let the pointee be the pointee type after unwrapping one level of
  elaborated sugar. If it is a tag type whose name is in the declared set, the pointer
  rule returns \<open>PointerType (NamedType name)\<close> with the const and volatile bits of the
  call and leaves the table alone, whatever entry point \<open>cv\<close> it is given: the pointee
  is not converted. Otherwise the rule converts the pointee through the public entry
  point \<open>convert\<close> and wraps the outcome in a pointer with the bits of the call. The
  dispatcher applies this rule to every type that desugars to a pointer type.
\<close>

theorem pointer_recursion_breaking:
  "(tag_name_of ctx (getTypePtr (unwrapped_pointee p)) = Some name \<and> name \<in> type_decls ctx \<longrightarrow>
      declared_tag ctx (unwrapped_pointee p) \<and>
      do_convert_pointer cv ctx p q dl =
        Some (Inr (PointerType (NamedType name) (hasConst q) (hasVolatile q), dl)))
   \<and> (\<not> declared_tag ctx (unwrapped_pointee p) \<longrightarrow>
      do_convert_pointer (dl_aware_convert n ctx) ctx p q dl =
        pointer_to q (convert n ctx (unwrapped_pointee p) dl))
   \<and> (getUnqualifiedDesugaredType ty = Clang_PointerType p \<longrightarrow>
      do_convert cv ctx ty q dl = do_convert_pointer cv ctx p q dl)"
  by (simp add: do_convert_pointer_cases declared_tag_def do_convert_def convert_def
      convert_type_def split: option.splits)

theorem pointer_recursion_breaking_witness:
  "tag_name_of ctx_declared
      (getTypePtr (unwrapped_pointee (Clang_ElaboratedType (Clang_RecordType 0, no_quals), const_quals)))
      = Some ''S''
   \<and> ''S'' \<in> type_decls ctx_declared
   \<and> do_convert_pointer (\<lambda>ty q dl. None) ctx_declared
        (Clang_ElaboratedType (Clang_RecordType 0, no_quals), const_quals) volatile_quals Map.empty
      = Some (Inr (PointerType (NamedType ''S'') False True, Map.empty))
   \<and> \<not> declared_tag ctx_declared
         (unwrapped_pointee (Clang_BuiltinType BuiltinType_Char_S, const_quals))
   \<and> do_convert_pointer (dl_aware_convert 1 ctx_declared) ctx_declared
        (Clang_BuiltinType BuiltinType_Char_S, const_quals) no_quals Map.empty
      = Some (Inr (PointerType (CharType False True False) False False,
                   [CharType False True False \<mapsto> \<lparr>Width = 32, Align = 32\<rparr>]))
   \<and> \<not> declared_tag ctx_empty
         (unwrapped_pointee (Clang_ElaboratedType (Clang_RecordType 0, no_quals), no_quals))
   \<and> do_convert_pointer (dl_aware_convert 1 ctx_empty) ctx_empty
        (Clang_ElaboratedType (Clang_RecordType 0, no_quals), no_quals) no_quals Map.empty
      = Some (Inl DeclarationOrderViolation)"
proof -
  let ?S = "(Clang_ElaboratedType (Clang_RecordType 0, no_quals), const_quals)"
  let ?S' = "(Clang_ElaboratedType (Clang_RecordType 0, no_quals), no_quals)"
  let ?C = "(Clang_BuiltinType BuiltinType_Char_S, const_quals)"
  have a: "tag_name_of ctx_declared (getTypePtr (unwrapped_pointee ?S)) = Some ''S''"
    "''S'' \<in> type_decls ctx_declared"
    by (simp_all add: tag_name_of_def unwrapped_pointee_def getName_def example_defs)
  have b: "\<not> declared_tag ctx_declared (unwrapped_pointee ?C)"
    "\<not> declared_tag ctx_empty (unwrapped_pointee ?S')"
    by (simp_all add: declared_tag_def tag_name_of_def unwrapped_pointee_def getName_def
        example_defs)
  have c: "pointer_to no_quals (convert 1 ctx_declared (unwrapped_pointee ?C) Map.empty)
      = Some (Inr (PointerType (CharType False True False) False False,
                   [CharType False True False \<mapsto> \<lparr>Width = 32, Align = 32\<rparr>]))"
    by (simp add: pointer_to_def convert_def convert_type_def unwrapped_pointee_def
        try_emplace_def rule_defs example_defs)
  have d: "pointer_to no_quals (convert 1 ctx_empty (unwrapped_pointee ?S') Map.empty)
      = Some (Inl DeclarationOrderViolation)"
    by (simp add: pointer_to_def convert_def convert_type_def unwrapped_pointee_def
        try_emplace_def rule_defs example_defs)
  have e: "hasConst volatile_quals = False" "hasVolatile volatile_quals = True"
    by (simp_all add: volatile_quals_def)
  show ?thesis
    using a b
      pointer_recursion_breaking [of ctx_declared ?S "''S''" "\<lambda>ty q dl. None" volatile_quals
        Map.empty 1]
      pointer_recursion_breaking [of ctx_declared ?C "''S''" "\<lambda>ty q dl. None" no_quals
        Map.empty 1]
      pointer_recursion_breaking [of ctx_empty ?S' "''S''" "\<lambda>ty q dl. None" no_quals
        Map.empty 1]
    by (simp only: c d e simp_thms)
qed

section \<open>Declaration order\<close>

text \<open>
  Claim C3. Take a type that desugars to a named record whose name is not in the defined
  set. If the name is not in the declared set either, the conversion fails with
  \<open>DeclarationOrderViolation\<close> (at the rule, for any entry point, and through the entry
  point for any depth bound of at least one). If the name is declared, the conversion
  converts the fields in declaration order, each from its own type and qualifiers
  through the public entry point, and stops at the first field whose conversion fails
  or does not return; when every field converts, to the types \<open>ts\<close>, the result is the
  \<open>RecordType\<close> that pairs the field names, in their order, with \<open>ts\<close>. A declared
  name alone does not make the conversion succeed.
\<close>

theorem record_declaration_order:
  assumes "getUnqualifiedDesugaredType ty = Clang_RecordType d"
    and "getIdentifier (getDecl ctx d) = Some name"
    and "name \<notin> type_defs ctx"
  shows "(name \<notin> type_decls ctx \<longrightarrow>
           do_convert_record cv ctx (getDecl ctx d) q dl = Some (Inl DeclarationOrderViolation)
           \<and> dl_aware_convert (Suc n) ctx ty q dl = Some (Inl DeclarationOrderViolation))
    \<and> (name \<in> type_decls ctx \<longrightarrow>
           ir_of (dl_aware_convert (Suc n) ctx ty q dl) =
             record_of (fields_in_order (\<lambda>fty. ir_of (convert n ctx fty dl))
               (decl_fields (getDecl ctx d))))
    \<and> (name \<in> type_decls ctx
         \<and> list_all2 (\<lambda>fld t. ir_of (convert n ctx (snd fld) dl) = Some (Inr t))
             (decl_fields (getDecl ctx d)) ts \<longrightarrow>
           ir_of (dl_aware_convert (Suc n) ctx ty q dl) =
             Some (Inr (RecordType (zip (map fst (decl_fields (getDecl ctx d))) ts))))"
proof -
  have violation: "do_convert_record cv ctx (getDecl ctx d) q dl =
      Some (Inl DeclarationOrderViolation)" if "name \<notin> type_decls ctx" for cv
    using assms that by (simp add: do_convert_record_def getName_def)
  have top_violation: "dl_aware_convert (Suc n) ctx ty q dl = Some (Inl DeclarationOrderViolation)"
    if "name \<notin> type_decls ctx"
    using assms(1) violation [OF that] by (simp add: do_convert_def)
  have expanded: "ir_of (dl_aware_convert (Suc n) ctx ty q dl) =
             record_of (fields_in_order (\<lambda>fty. ir_of (convert n ctx fty dl))
               (decl_fields (getDecl ctx d)))" if "name \<in> type_decls ctx"
    using assms that by (rule expanded_record_ir)
  have success: "ir_of (dl_aware_convert (Suc n) ctx ty q dl) =
             Some (Inr (RecordType (zip (map fst (decl_fields (getDecl ctx d))) ts)))"
    if "name \<in> type_decls ctx"
      and "list_all2 (\<lambda>fld t. ir_of (convert n ctx (snd fld) dl) = Some (Inr t))
             (decl_fields (getDecl ctx d)) ts"
    using expanded [OF that(1)] fields_in_order_all [OF that(2)]
    by (simp add: record_of_def)
  show ?thesis
    using violation top_violation expanded success by blast
qed

theorem record_declaration_order_witness:
  "getUnqualifiedDesugaredType (Clang_RecordType 1) = Clang_RecordType 1
   \<and> getIdentifier (getDecl ctx_declared 1) = Some ''P''
   \<and> ''P'' \<notin> type_defs ctx_declared \<and> ''P'' \<in> type_decls ctx_declared
   \<and> list_all2 (\<lambda>fld t. ir_of (convert 2 ctx_declared (snd fld) Map.empty) = Some (Inr t))
        (decl_fields (getDecl ctx_declared 1))
        [IntType False False False, PointerType (CharType False True False) False False]
   \<and> ir_of (dl_aware_convert (Suc 2) ctx_declared (Clang_RecordType 1) const_quals Map.empty) =
       Some (Inr (RecordType
         [(''x'', IntType False False False),
          (''name'', PointerType (CharType False True False) False False)]))
   \<and> getIdentifier (getDecl ctx_empty 1) = Some ''P''
   \<and> ''P'' \<notin> type_defs ctx_empty \<and> ''P'' \<notin> type_decls ctx_empty
   \<and> dl_aware_convert (Suc 2) ctx_empty (Clang_RecordType 1) const_quals Map.empty =
       Some (Inl DeclarationOrderViolation)"
proof -
  let ?ts = "[IntType False False False, PointerType (CharType False True False) False False]"
  have h: "getUnqualifiedDesugaredType (Clang_RecordType 1) = Clang_RecordType 1"
    "getIdentifier (getDecl ctx_declared 1) = Some ''P''"
    "''P'' \<notin> type_defs ctx_declared"
    and d: "''P'' \<in> type_decls ctx_declared"
    and h': "getIdentifier (getDecl ctx_empty 1) = Some ''P''"
    "''P'' \<notin> type_defs ctx_empty"
    and d': "''P'' \<notin> type_decls ctx_empty"
    by (simp_all add: example_defs)
  have fs: "decl_fields (getDecl ctx_declared 1) =
      [(''x'', (Clang_BuiltinType BuiltinType_Int, no_quals)),
       (''name'',
        (Clang_PointerType (Clang_BuiltinType BuiltinType_Char_S, const_quals), no_quals))]"
    by (simp add: ctx_declared_def example_decls_def struct_P_def)
  have l: "list_all2 (\<lambda>fld t. ir_of (convert 2 ctx_declared (snd fld) Map.empty) = Some (Inr t))
        (decl_fields (getDecl ctx_declared 1)) ?ts"
    unfolding fs
    by (simp add: numeral_2_eq_2 convert_def convert_type_def rule_defs example_defs)
  have z: "zip (map fst (decl_fields (getDecl ctx_declared 1))) ?ts =
      [(''x'', IntType False False False),
       (''name'', PointerType (CharType False True False) False False)]"
    unfolding fs by simp
  have "ir_of (dl_aware_convert (Suc 2) ctx_declared (Clang_RecordType 1) const_quals Map.empty) =
       Some (Inr (RecordType (zip (map fst (decl_fields (getDecl ctx_declared 1))) ?ts)))"
    using record_declaration_order [OF h, of "\<lambda>ty q dl. None" const_quals Map.empty 2 ?ts] d l
    by blast
  then have ok: "ir_of (dl_aware_convert (Suc 2) ctx_declared (Clang_RecordType 1) const_quals
      Map.empty) = Some (Inr (RecordType
         [(''x'', IntType False False False),
          (''name'', PointerType (CharType False True False) False False)]))"
    by (simp only: z)
  have bad: "dl_aware_convert (Suc 2) ctx_empty (Clang_RecordType 1) const_quals Map.empty =
       Some (Inl DeclarationOrderViolation)"
    using record_declaration_order [OF h(1) h', of "\<lambda>ty q dl. None" const_quals Map.empty 2 ?ts]
      d'
    by blast
  show ?thesis
    using h d l ok h' d' bad by (intro conjI)
qed

text \<open>
  The record \<^verbatim>\<open>struct Q { int x; enum { A, B } e; };\<close> has a name that is declared and
  not defined, and its conversion fails: the field \<open>e\<close> has an enum type without a name.
  By \<open>dl_aware_convert_mono\<close> the outcome is the same for every depth bound of at
  least two.
\<close>

theorem record_declaration_order_counterexample:
  "getUnqualifiedDesugaredType (Clang_RecordType 3) = Clang_RecordType 3
   \<and> getIdentifier (getDecl ctx_declared 3) = Some ''Q''
   \<and> ''Q'' \<notin> type_defs ctx_declared
   \<and> ''Q'' \<in> type_decls ctx_declared
   \<and> dl_aware_convert 2 ctx_declared (Clang_RecordType 3) no_quals Map.empty =
       Some (Inl AnonymousEnum)"
  by (simp add: numeral_2_eq_2 numeral_3_eq_3 rule_defs example_defs)

section \<open>Records that are already defined\<close>

text \<open>
  Claim C4. For a record with a name in the defined set the rule returns
  \<open>NamedType name\<close> and leaves the table alone, whatever the entry point \<open>cv\<close> it is
  given (also one that never returns) and whatever the fields are: the body is not
  expanded again. Through the entry point, with any depth bound of at least one, the
  conversion returns \<open>NamedType name\<close> and records its layout; converting the same type
  a second time, from the table the first conversion left, returns \<open>NamedType name\<close>
  again and leaves that table as it is.
\<close>

theorem defined_record_is_named:
  assumes "getIdentifier decl = Some name" and "name \<in> type_defs ctx"
  shows "do_convert_record cv ctx decl q dl = Some (Inr (NamedType name, dl))
    \<and> (getUnqualifiedDesugaredType ty = Clang_RecordType d \<and> getDecl ctx d = decl \<longrightarrow>
         dl_aware_convert (Suc n) ctx ty q dl =
           Some (Inr (NamedType name, try_emplace dl (NamedType name) ty ctx))
         \<and> dl_aware_convert (Suc m) ctx ty q' (try_emplace dl (NamedType name) ty ctx) =
           Some (Inr (NamedType name, try_emplace dl (NamedType name) ty ctx)))"
proof -
  have rule: "do_convert_record cv ctx decl q dl = Some (Inr (NamedType name, dl))"
    for cv q dl
    using assms by (simp add: do_convert_record_def getName_def)
  have top: "dl_aware_convert (Suc n) ctx ty q dl =
      Some (Inr (NamedType name, try_emplace dl (NamedType name) ty ctx))"
    if "getUnqualifiedDesugaredType ty = Clang_RecordType d" and "getDecl ctx d = decl"
    for n q dl
    using that by (simp add: do_convert_def rule isFunctionType_def)
  show ?thesis
    using rule top [of n q dl] top [of m q' "try_emplace dl (NamedType name) ty ctx"]
    by (simp add: try_emplace_idem)
qed

theorem defined_record_is_named_witness:
  "getIdentifier struct_P = Some ''P'' \<and> ''P'' \<in> type_defs ctx_defined
   \<and> getUnqualifiedDesugaredType (Clang_ElaboratedType (Clang_RecordType 1, no_quals))
       = Clang_RecordType 1
   \<and> getDecl ctx_defined 1 = struct_P
   \<and> do_convert_record (\<lambda>ty q dl. None) ctx_defined struct_P const_quals Map.empty =
       Some (Inr (NamedType ''P'', Map.empty))
   \<and> dl_aware_convert (Suc 0) ctx_defined
        (Clang_ElaboratedType (Clang_RecordType 1, no_quals)) const_quals Map.empty =
       Some (Inr (NamedType ''P'', [NamedType ''P'' \<mapsto> \<lparr>Width = 128, Align = 64\<rparr>]))
   \<and> dl_aware_convert (Suc 0) ctx_defined
        (Clang_ElaboratedType (Clang_RecordType 1, no_quals)) no_quals
        [NamedType ''P'' \<mapsto> \<lparr>Width = 128, Align = 64\<rparr>] =
       Some (Inr (NamedType ''P'', [NamedType ''P'' \<mapsto> \<lparr>Width = 128, Align = 64\<rparr>]))"
proof -
  have h: "getIdentifier struct_P = Some ''P''" "''P'' \<in> type_defs ctx_defined"
    "getUnqualifiedDesugaredType (Clang_ElaboratedType (Clang_RecordType 1, no_quals))
       = Clang_RecordType 1"
    "getDecl ctx_defined 1 = struct_P"
    by (simp_all add: example_defs)
  have e: "try_emplace Map.empty (NamedType ''P'')
      (Clang_ElaboratedType (Clang_RecordType 1, no_quals)) ctx_defined
      = [NamedType ''P'' \<mapsto> \<lparr>Width = 128, Align = 64\<rparr>]"
    by (simp add: try_emplace_def ctx_defined_def example_info_def)
  show ?thesis
    using h defined_record_is_named [OF h(1) h(2), of "\<lambda>ty q dl. None" const_quals Map.empty
      "Clang_ElaboratedType (Clang_RecordType 1, no_quals)" 1 0 0 no_quals]
    by (simp only: e simp_thms)
qed

section \<open>Recording the data layout\<close>

text \<open>
  Claim C5. Let a conversion through the public entry point return the IR type \<open>out\<close>
  and the table \<open>dl'\<close>; \<open>out\<close> is an IR function type exactly when the source type is a
  function type. If the source type is not a function type, \<open>dl'\<close> has an entry under
  \<open>out\<close>; it is made by \<^verbatim>\<open>try_emplace\<close> from the layout facts of the source type,
  after the conversion proper. Converting the same type again, from \<open>dl'\<close>, returns
  \<open>out\<close> and leaves \<open>dl'\<close> as it is, and \<open>dl'\<close> extends the table the conversion
  started from without changing an entry. If the source type is a function type, the
  entry point adds nothing to what the conversion proper did, and the table has under
  \<open>out\<close> what it had before; no conversion ever changes the table at an IR function
  type.
\<close>

theorem data_layout_recording:
  assumes "convert n ctx (ty, q) dl = Some (Inr (out, dl'))"
  shows "convert n ctx (ty, q) dl' = Some (Inr (out, dl'))
    \<and> dl \<subseteq>\<^sub>m dl'
    \<and> is_function_ir out = isFunctionType ty
    \<and> (\<not> isFunctionType ty \<longrightarrow> out \<in> dom dl')
    \<and> (isFunctionType ty \<longrightarrow> dl' out = dl out)
    \<and> (is_function_ir k \<longrightarrow> dl' k = dl k)
    \<and> (isFunctionType ty \<longrightarrow>
          dl_aware_convert (Suc m) ctx ty q dl = do_convert (dl_aware_convert m ctx) ctx ty q dl)
    \<and> (\<not> isFunctionType ty \<longrightarrow>
          dl_aware_convert (Suc m) ctx ty q dl =
            (case do_convert (dl_aware_convert m ctx) ctx ty q dl of
               None \<Rightarrow> None
             | Some (Inl e) \<Rightarrow> Some (Inl e)
             | Some (Inr (t, dl0)) \<Rightarrow> Some (Inr (t, try_emplace dl0 t ty ctx))))"
proof -
  have c: "dl_aware_convert n ctx ty q dl = Some (Inr (out, dl'))"
    using assms by (simp add: convert_def convert_type_def)
  from dl_aware_convert_logged [of n ctx ty q]
  obtain r where pr: "plain_result r"
    and r: "\<And>dl. dl_aware_convert n ctx ty q dl = logged ctx r dl"
    by (elim exE conjE) simp
  from c r [of dl] obtain log where log: "r = Some (Inr (out, log))"
    and dl': "dl' = replay ctx dl log"
    by (cases r rule: outcome_cases) (auto simp: logged_def)
  have pl: "plain_log log"
    using pr log by (simp add: plain_result_def)
  have again: "convert n ctx (ty, q) dl' = Some (Inr (out, dl'))"
    by (simp add: convert_def convert_type_def r log logged_def dl' replay_idem)
  have le: "dl \<subseteq>\<^sub>m dl'"
    unfolding dl' by (rule replay_map_le)
  have shape: "is_function_ir out = isFunctionType ty"
    using c by (rule dl_aware_convert_shape)
  have keys: "dl' k = dl k" if "is_function_ir k" for k
    unfolding dl' using pl that by (rule replay_function_keys)
  have recorded: "out \<in> dom dl'" if "\<not> isFunctionType ty"
  proof (cases n)
    case 0
    with c show ?thesis by simp
  next
    case (Suc j)
    with c that obtain dl0 where "dl' = try_emplace dl0 out ty ctx"
      by (cases "do_convert (dl_aware_convert j ctx) ctx ty q dl" rule: outcome_cases) auto
    then show ?thesis
      by (simp add: dom_try_emplace)
  qed
  show ?thesis
    using again le recorded keys [of out] keys [of k] shape
    by (auto split: option.splits sum.splits)
qed

theorem data_layout_recording_witness:
  "convert 3 ctx_declared (Clang_RecordType 1, no_quals) Map.empty =
     Some (Inr (ir_struct_P, layout_P))
   \<and> convert 3 ctx_declared (Clang_RecordType 1, no_quals) layout_P =
     Some (Inr (ir_struct_P, layout_P))
   \<and> ir_struct_P \<in> dom layout_P
   \<and> isFunctionType example_function
   \<and> convert 3 ctx_declared (example_function, no_quals) Map.empty =
     Some (Inr (ir_function, layout_basic))
   \<and> layout_basic ir_function = None"
proof -
  have p: "convert 3 ctx_declared (Clang_RecordType 1, no_quals) Map.empty =
     Some (Inr (ir_struct_P, layout_P))"
    by (simp add: numeral_3_eq_3 convert_def convert_type_def try_emplace_def rule_defs
        example_defs)
  have f: "convert 3 ctx_declared (example_function, no_quals) Map.empty =
     Some (Inr (ir_function, layout_basic))"
    by (simp add: numeral_3_eq_3 convert_def convert_type_def try_emplace_def rule_defs
        example_defs)
  have nf: "\<not> isFunctionType (Clang_RecordType 1)" and isf: "isFunctionType example_function"
    by (simp_all add: isFunctionType_def example_function_def)
  note tp = data_layout_recording [OF p, of ir_struct_P 0]
  note tf = data_layout_recording [OF f, of ir_function 0]
  have again: "convert 3 ctx_declared (Clang_RecordType 1, no_quals) layout_P =
     Some (Inr (ir_struct_P, layout_P))"
    using tp by (rule conjunct1)
  have recorded: "ir_struct_P \<in> dom layout_P"
    using tp nf by blast
  have "layout_basic ir_function = Map.empty ir_function"
    using tf isf by blast
  then have skipped: "layout_basic ir_function = None"
    by simp
  show ?thesis
    using p again recorded isf f skipped by (intro conjI)
qed

section \<open>Builtin integer types\<close>

lemma get_integer_kind_Inr:
  "get_integer_kind k = Inr ik \<Longrightarrow>
     \<not> isVoidType k \<and> \<not> isBooleanType k \<and> isIntegerType k"
  by (cases k) (simp_all add: isVoidType_def isBooleanType_def isIntegerType_def
      isUnsignedIntegerType_def)

text \<open>
  Claim C6. A builtin integer is classified by its width class (\<open>get_integer_kind\<close>), and
  its unsignedness is read from the source type as a separate bit: whenever the
  classification gives a kind, the conversion is the integer type of that kind with
  \<open>isUnsignedIntegerType\<close> of the source and the caller's const and volatile bits.
  Converting \<^verbatim>\<open>const unsigned long\<close> through the entry point gives
  \<open>LongType True True False\<close>. The four builtins of the char family (\<open>Char_U\<close> and
  \<open>Char_S\<close> for plain char on either kind of platform, \<open>SChar\<close>, \<open>UChar\<close>) all have the
  kind \<open>IntegerKind_Char\<close> and convert to \<open>CharType\<close>, which tells them apart only by
  its unsigned bit. The table is complete: each of the fourteen builtins from char to
  128 bits has the kind of its width class, the signed and the unsigned builtin of one
  width share the kind and convert to the same IR type up to the unsigned bit, and
  every other builtin kind has no integer kind.
\<close>

theorem builtin_integer_classification:
  "(get_integer_kind k = Inr ik \<longrightarrow>
      do_convert_builtin k q =
        Inr (integer_type_of ik (isUnsignedIntegerType k) (hasConst q) (hasVolatile q)))
   \<and> convert (Suc n) ctx (Clang_BuiltinType BuiltinType_ULong, const_quals) dl =
       Some (Inr (LongType True True False,
                  try_emplace dl (LongType True True False)
                    (Clang_BuiltinType BuiltinType_ULong) ctx))
   \<and> get_integer_kind BuiltinType_Char_U = Inr IntegerKind_Char
   \<and> get_integer_kind BuiltinType_Char_S = Inr IntegerKind_Char
   \<and> get_integer_kind BuiltinType_SChar = Inr IntegerKind_Char
   \<and> get_integer_kind BuiltinType_UChar = Inr IntegerKind_Char
   \<and> do_convert_builtin BuiltinType_Char_U q = Inr (CharType True (hasConst q) (hasVolatile q))
   \<and> do_convert_builtin BuiltinType_Char_S q = Inr (CharType False (hasConst q) (hasVolatile q))
   \<and> do_convert_builtin BuiltinType_SChar q = Inr (CharType False (hasConst q) (hasVolatile q))
   \<and> do_convert_builtin BuiltinType_UChar q = Inr (CharType True (hasConst q) (hasVolatile q))
   \<and> get_integer_kind BuiltinType_Short = Inr IntegerKind_Short
   \<and> get_integer_kind BuiltinType_UShort = Inr IntegerKind_Short
   \<and> get_integer_kind BuiltinType_Int = Inr IntegerKind_Int
   \<and> get_integer_kind BuiltinType_UInt = Inr IntegerKind_Int
   \<and> get_integer_kind BuiltinType_Long = Inr IntegerKind_Long
   \<and> get_integer_kind BuiltinType_ULong = Inr IntegerKind_Long
   \<and> get_integer_kind BuiltinType_LongLong = Inr IntegerKind_LongLong
   \<and> get_integer_kind BuiltinType_ULongLong = Inr IntegerKind_LongLong
   \<and> get_integer_kind BuiltinType_Int128 = Inr IntegerKind_Int128
   \<and> get_integer_kind BuiltinType_UInt128 = Inr IntegerKind_Int128
   \<and> do_convert_builtin BuiltinType_Short q = Inr (ShortType False (hasConst q) (hasVolatile q))
   \<and> do_convert_builtin BuiltinType_UShort q = Inr (ShortType True (hasConst q) (hasVolatile q))
   \<and> do_convert_builtin BuiltinType_Int q = Inr (IntType False (hasConst q) (hasVolatile q))
   \<and> do_convert_builtin BuiltinType_UInt q = Inr (IntType True (hasConst q) (hasVolatile q))
   \<and> do_convert_builtin BuiltinType_Long q = Inr (LongType False (hasConst q) (hasVolatile q))
   \<and> do_convert_builtin BuiltinType_ULong q = Inr (LongType True (hasConst q) (hasVolatile q))
   \<and> do_convert_builtin BuiltinType_LongLong q = Inr (LongLongType False (hasConst q) (hasVolatile q))
   \<and> do_convert_builtin BuiltinType_ULongLong q = Inr (LongLongType True (hasConst q) (hasVolatile q))
   \<and> do_convert_builtin BuiltinType_Int128 q = Inr (Int128Type False (hasConst q) (hasVolatile q))
   \<and> do_convert_builtin BuiltinType_UInt128 q = Inr (Int128Type True (hasConst q) (hasVolatile q))
   \<and> isUnsignedIntegerType BuiltinType_Char_U
   \<and> isUnsignedIntegerType BuiltinType_UChar
   \<and> \<not> isUnsignedIntegerType BuiltinType_Char_S
   \<and> \<not> isUnsignedIntegerType BuiltinType_SChar
   \<and> \<not> isUnsignedIntegerType BuiltinType_Short
   \<and> isUnsignedIntegerType BuiltinType_UShort
   \<and> \<not> isUnsignedIntegerType BuiltinType_Int
   \<and> isUnsignedIntegerType BuiltinType_UInt
   \<and> \<not> isUnsignedIntegerType BuiltinType_Long
   \<and> isUnsignedIntegerType BuiltinType_ULong
   \<and> \<not> isUnsignedIntegerType BuiltinType_LongLong
   \<and> isUnsignedIntegerType BuiltinType_ULongLong
   \<and> \<not> isUnsignedIntegerType BuiltinType_Int128
   \<and> isUnsignedIntegerType BuiltinType_UInt128
   \<and> (k \<notin> {BuiltinType_Char_U, BuiltinType_UChar, BuiltinType_Char_S, BuiltinType_SChar,
            BuiltinType_Short, BuiltinType_UShort, BuiltinType_Int, BuiltinType_UInt,
            BuiltinType_Long, BuiltinType_ULong, BuiltinType_LongLong, BuiltinType_ULongLong,
            BuiltinType_Int128, BuiltinType_UInt128} \<longrightarrow>
      get_integer_kind k = Inl UnknownIntegerKind)"
proof -
  have general: "do_convert_builtin k q =
        Inr (integer_type_of ik (isUnsignedIntegerType k) (hasConst q) (hasVolatile q))"
    if "get_integer_kind k = Inr ik" for k ik q
    using that get_integer_kind_Inr [OF that]
    by (cases ik) (simp_all add: do_convert_builtin_def)
  have kind:
    "get_integer_kind BuiltinType_Char_U = Inr IntegerKind_Char"
    "get_integer_kind BuiltinType_UChar = Inr IntegerKind_Char"
    "get_integer_kind BuiltinType_Char_S = Inr IntegerKind_Char"
    "get_integer_kind BuiltinType_SChar = Inr IntegerKind_Char"
    "get_integer_kind BuiltinType_Short = Inr IntegerKind_Short"
    "get_integer_kind BuiltinType_UShort = Inr IntegerKind_Short"
    "get_integer_kind BuiltinType_Int = Inr IntegerKind_Int"
    "get_integer_kind BuiltinType_UInt = Inr IntegerKind_Int"
    "get_integer_kind BuiltinType_Long = Inr IntegerKind_Long"
    "get_integer_kind BuiltinType_ULong = Inr IntegerKind_Long"
    "get_integer_kind BuiltinType_LongLong = Inr IntegerKind_LongLong"
    "get_integer_kind BuiltinType_ULongLong = Inr IntegerKind_LongLong"
    "get_integer_kind BuiltinType_Int128 = Inr IntegerKind_Int128"
    "get_integer_kind BuiltinType_UInt128 = Inr IntegerKind_Int128"
    by simp_all
  have unsigned:
    "isUnsignedIntegerType BuiltinType_Char_U"
    "isUnsignedIntegerType BuiltinType_UChar"
    "\<not> isUnsignedIntegerType BuiltinType_Char_S"
    "\<not> isUnsignedIntegerType BuiltinType_SChar"
    "\<not> isUnsignedIntegerType BuiltinType_Short"
    "isUnsignedIntegerType BuiltinType_UShort"
    "\<not> isUnsignedIntegerType BuiltinType_Int"
    "isUnsignedIntegerType BuiltinType_UInt"
    "\<not> isUnsignedIntegerType BuiltinType_Long"
    "isUnsignedIntegerType BuiltinType_ULong"
    "\<not> isUnsignedIntegerType BuiltinType_LongLong"
    "isUnsignedIntegerType BuiltinType_ULongLong"
    "\<not> isUnsignedIntegerType BuiltinType_Int128"
    "isUnsignedIntegerType BuiltinType_UInt128"
    by (simp_all add: isUnsignedIntegerType_def)
  have rule:
    "do_convert_builtin BuiltinType_Char_U q = Inr (CharType True (hasConst q) (hasVolatile q))"
    "do_convert_builtin BuiltinType_UChar q = Inr (CharType True (hasConst q) (hasVolatile q))"
    "do_convert_builtin BuiltinType_Char_S q = Inr (CharType False (hasConst q) (hasVolatile q))"
    "do_convert_builtin BuiltinType_SChar q = Inr (CharType False (hasConst q) (hasVolatile q))"
    "do_convert_builtin BuiltinType_Short q = Inr (ShortType False (hasConst q) (hasVolatile q))"
    "do_convert_builtin BuiltinType_UShort q = Inr (ShortType True (hasConst q) (hasVolatile q))"
    "do_convert_builtin BuiltinType_Int q = Inr (IntType False (hasConst q) (hasVolatile q))"
    "do_convert_builtin BuiltinType_UInt q = Inr (IntType True (hasConst q) (hasVolatile q))"
    "do_convert_builtin BuiltinType_Long q = Inr (LongType False (hasConst q) (hasVolatile q))"
    "do_convert_builtin BuiltinType_ULong q = Inr (LongType True (hasConst q) (hasVolatile q))"
    "do_convert_builtin BuiltinType_LongLong q = Inr (LongLongType False (hasConst q) (hasVolatile q))"
    "do_convert_builtin BuiltinType_ULongLong q = Inr (LongLongType True (hasConst q) (hasVolatile q))"
    "do_convert_builtin BuiltinType_Int128 q = Inr (Int128Type False (hasConst q) (hasVolatile q))"
    "do_convert_builtin BuiltinType_UInt128 q = Inr (Int128Type True (hasConst q) (hasVolatile q))"
    for q
    using general [OF kind(1)] general [OF kind(2)] general [OF kind(3)] general [OF kind(4)] general [OF kind(5)] general [OF kind(6)] general [OF kind(7)] general [OF kind(8)] general [OF kind(9)] general [OF kind(10)] general [OF kind(11)] general [OF kind(12)] general [OF kind(13)] general [OF kind(14)]
    by (simp_all add: unsigned)
  have top: "convert (Suc n) ctx (Clang_BuiltinType BuiltinType_ULong, const_quals) dl =
       Some (Inr (LongType True True False,
                  try_emplace dl (LongType True True False)
                    (Clang_BuiltinType BuiltinType_ULong) ctx))"
    using rule(10) [of const_quals]
    by (simp add: convert_def convert_type_def do_convert_def isFunctionType_def const_quals_def)
  have total: "get_integer_kind k = Inl UnknownIntegerKind"
    if "k \<notin> {BuiltinType_Char_U, BuiltinType_UChar, BuiltinType_Char_S, BuiltinType_SChar,
        BuiltinType_Short, BuiltinType_UShort, BuiltinType_Int, BuiltinType_UInt,
        BuiltinType_Long, BuiltinType_ULong, BuiltinType_LongLong, BuiltinType_ULongLong,
        BuiltinType_Int128, BuiltinType_UInt128}"
    using that by (cases k) simp_all
  show ?thesis
    using general top kind rule unsigned total
    by (intro conjI impI) (assumption | simp only:)+
qed

theorem builtin_integer_classification_witness:
  "get_integer_kind BuiltinType_UInt = Inr IntegerKind_Int
   \<and> do_convert_builtin BuiltinType_UInt volatile_quals = Inr (IntType True False True)
   \<and> BuiltinType_WChar_U \<notin> {BuiltinType_Char_U, BuiltinType_UChar, BuiltinType_Char_S, BuiltinType_SChar,
            BuiltinType_Short, BuiltinType_UShort, BuiltinType_Int, BuiltinType_UInt,
            BuiltinType_Long, BuiltinType_ULong, BuiltinType_LongLong, BuiltinType_ULongLong,
            BuiltinType_Int128, BuiltinType_UInt128}
   \<and> get_integer_kind BuiltinType_WChar_U = Inl UnknownIntegerKind"
proof -
  note t = builtin_integer_classification [of BuiltinType_UInt IntegerKind_Int volatile_quals]
  note u = builtin_integer_classification [of BuiltinType_WChar_U]
  have k: "get_integer_kind BuiltinType_UInt = Inr IntegerKind_Int"
    by simp
  have "do_convert_builtin BuiltinType_UInt volatile_quals =
      Inr (integer_type_of IntegerKind_Int (isUnsignedIntegerType BuiltinType_UInt)
        (hasConst volatile_quals) (hasVolatile volatile_quals))"
    using t k by blast
  then have c: "do_convert_builtin BuiltinType_UInt volatile_quals = Inr (IntType True False True)"
    by (simp add: isUnsignedIntegerType_def volatile_quals_def)
  have w: "BuiltinType_WChar_U \<notin> {BuiltinType_Char_U, BuiltinType_UChar, BuiltinType_Char_S, BuiltinType_SChar,
        BuiltinType_Short, BuiltinType_UShort, BuiltinType_Int, BuiltinType_UInt,
        BuiltinType_Long, BuiltinType_ULong, BuiltinType_LongLong, BuiltinType_ULongLong,
        BuiltinType_Int128, BuiltinType_UInt128}"
    by simp
  have "get_integer_kind BuiltinType_WChar_U = Inl UnknownIntegerKind"
    using u w by blast
  with k c w show ?thesis
    by (intro conjI)
qed

section \<open>Enum types are named\<close>

text \<open>
  Claim C7. Converting a type that desugars to an enum type fails with \<open>AnonymousEnum\<close>
  when the enum has no identifier, and otherwise returns \<open>NamedType name\<close>, for every
  depth bound of at least one: the enum is never expanded, and the result does not
  mention the qualifiers \<open>q\<close> of the call. The rule \<open>do_convert_enum\<close> and the entry
  point agree; the entry point also records the layout of the produced node.
\<close>

theorem enum_conversion:
  assumes "getUnqualifiedDesugaredType ty = Clang_EnumType ident"
  shows "do_convert_enum ident q =
           (case ident of None \<Rightarrow> Inl AnonymousEnum | Some name \<Rightarrow> Inr (NamedType name))
         \<and> dl_aware_convert (Suc n) ctx ty q dl =
           (case ident of
              None \<Rightarrow> Some (Inl AnonymousEnum)
            | Some name \<Rightarrow> Some (Inr (NamedType name, try_emplace dl (NamedType name) ty ctx)))"
  using assms
  by (simp add: do_convert_def do_convert_enum_def getName_def isFunctionType_def
      split: option.splits)

theorem enum_conversion_witness:
  "getUnqualifiedDesugaredType (Clang_TypedefType (Clang_EnumType (Some ''State''), no_quals))
     = Clang_EnumType (Some ''State'')
   \<and> do_convert_enum (Some ''State'') const_quals = Inr (NamedType ''State'')
   \<and> dl_aware_convert (Suc 0) ctx_empty
        (Clang_TypedefType (Clang_EnumType (Some ''State''), no_quals)) const_quals Map.empty =
      Some (Inr (NamedType ''State'', [NamedType ''State'' \<mapsto> \<lparr>Width = 64, Align = 64\<rparr>]))
   \<and> dl_aware_convert (Suc 0) ctx_empty (Clang_EnumType None) const_quals Map.empty =
      Some (Inl AnonymousEnum)"
  using enum_conversion [of "Clang_TypedefType (Clang_EnumType (Some ''State''), no_quals)"
      "Some ''State''" const_quals 0 ctx_empty Map.empty]
    enum_conversion [of "Clang_EnumType None" None const_quals 0 ctx_empty Map.empty]
  by (simp add: try_emplace_def ctx_empty_def example_info_def)

section \<open>Qualifiers\<close>

lemma with_quals_idem [simp]: "with_quals q (with_quals q' t) = with_quals q t"
  by (cases t) simp_all

lemma do_convert_builtin_quals:
  "do_convert_builtin k q = map_sum id (with_quals q) (do_convert_builtin k q')"
  by (cases k)
    (simp_all add: do_convert_builtin_def isVoidType_def isBooleanType_def isIntegerType_def
      isUnsignedIntegerType_def isFloatingType_def)

lemma requalified_simps [simp]:
  "requalified q None = None"
  "requalified q (Some (Inl e)) = Some (Inl e)"
  "requalified q (Some (Inr (t, dl))) = Some (Inr (with_quals q t, dl))"
  by (simp_all add: requalified_def)

lemma do_convert_quals:
  "do_convert cv ctx ty q dl = requalified q (do_convert cv ctx ty q' dl)"
proof (cases "getUnqualifiedDesugaredType ty")
  case (Clang_BuiltinType k)
  then show ?thesis
    using do_convert_builtin_quals [of k q q']
    by (cases "do_convert_builtin k q'") (simp_all add: do_convert_def)
next
  case (Clang_PointerType p)
  then show ?thesis
    by (cases "cv (getTypePtr (unwrapped_pointee p)) (getQualifiers (unwrapped_pointee p)) dl"
        rule: outcome_cases)
      (simp_all add: do_convert_def do_convert_pointer_cases pointer_to_def split: option.splits)
next
  case (Clang_RecordType d)
  then show ?thesis
    by (cases "convert_fields cv (decl_fields (getDecl ctx d)) dl" rule: outcome_cases)
      (simp_all add: do_convert_def do_convert_record_def Let_def)
next
  case (Clang_EnumType ident)
  then show ?thesis
    by (simp add: do_convert_def do_convert_enum_def)
next
  case (Clang_ConstantArrayType elem bound)
  then show ?thesis
    by (cases "cv (getTypePtr elem) (getQualifiers elem) dl" rule: outcome_cases)
      (simp_all add: do_convert_def do_convert_array_def)
next
  case (Clang_FunctionType prototype ret)
  have "convert_function cv prototype ret dl =
      requalified q (convert_function cv prototype ret dl)"
    by (cases "convert_function cv prototype ret dl" rule: outcome_cases)
      (auto simp: convert_function_def split: option.splits sum.splits)
  with Clang_FunctionType show ?thesis
    by (simp add: do_convert_def)
qed (simp_all add: do_convert_def)

lemma ir_of_requalified:
  "ir_of (requalified q r) = map_option (map_sum id (with_quals q)) (ir_of r)"
  by (cases r rule: outcome_cases) simp_all

text \<open>
  Claim C8. For every source type and any two qualifier sets \<open>q\<close> and \<open>q'\<close>, the IR type
  that \<open>convert_type\<close> returns for \<open>q\<close> is the one it returns for \<open>q'\<close> with the
  qualifier bits of the outermost node replaced by those of \<open>q\<close> (and the two calls fail
  or run out of budget together): the results differ at most in the bits of the
  outermost node, so they are equal once those bits are set to any common \<open>q0\<close>. The
  bits come from the \<open>quals\<close> argument alone: the dispatcher \<open>do_convert\<close>, which desugars
  the type, returns the same table and the same IR type up to the outermost bits for
  any entry point.
\<close>

theorem qualifier_propagation:
  "ir_of (convert_type n ctx ty q dl) =
     map_option (map_sum id (with_quals q)) (ir_of (convert_type n ctx ty q' dl))
   \<and> map_option (map_sum id (with_quals q0)) (ir_of (convert_type n ctx ty q dl)) =
     map_option (map_sum id (with_quals q0)) (ir_of (convert_type n ctx ty q' dl))
   \<and> do_convert cv ctx ty q dl =
     map_option (map_sum id (apfst (with_quals q))) (do_convert cv ctx ty q' dl)"
proof -
  have main: "ir_of (convert_type n ctx ty q dl) =
     map_option (map_sum id (with_quals q)) (ir_of (convert_type n ctx ty q' dl))" for q q'
  proof (cases n)
    case 0
    then show ?thesis by (simp add: convert_type_def)
  next
    case (Suc m)
    show ?thesis
      unfolding convert_type_def Suc ir_of_dl_aware_convert_Suc
      by (subst do_convert_quals [of _ _ _ q _ q']) (rule ir_of_requalified)
  qed
  have "map_option (map_sum id (with_quals q0)) (ir_of (convert_type n ctx ty q dl)) =
     map_option (map_sum id (with_quals q0)) (ir_of (convert_type n ctx ty q' dl))"
    by (subst main [of q q'], cases "ir_of (convert_type n ctx ty q' dl)")
      (auto simp: map_sum_def split: sum.splits)
  with main [of q q'] do_convert_quals [of cv ctx ty q dl q'] show ?thesis
    by (simp add: requalified_def)
qed

theorem qualifier_propagation_witness:
  "ir_of (convert_type 2 ctx_declared
       (Clang_PointerType (Clang_BuiltinType BuiltinType_Char_S, const_quals)) volatile_quals
       Map.empty) = Some (Inr (PointerType (CharType False True False) False True))
   \<and> ir_of (convert_type 2 ctx_declared
       (Clang_PointerType (Clang_BuiltinType BuiltinType_Char_S, const_quals)) const_quals
       Map.empty) = Some (Inr (PointerType (CharType False True False) True False))
   \<and> ir_of (convert_type 1 ctx_declared
       (Clang_TypedefType (Clang_BuiltinType BuiltinType_Int, const_quals)) no_quals
       Map.empty) = Some (Inr (IntType False False False))
   \<and> ir_of (convert_type 1 ctx_declared
       (Clang_TypedefType (Clang_BuiltinType BuiltinType_Int, const_quals)) volatile_quals
       Map.empty) = Some (Inr (IntType False False True))"
proof -
  let ?p = "Clang_PointerType (Clang_BuiltinType BuiltinType_Char_S, const_quals)"
  let ?t = "Clang_TypedefType (Clang_BuiltinType BuiltinType_Int, const_quals)"
  have a: "ir_of (convert_type 2 ctx_declared ?p volatile_quals Map.empty) =
      Some (Inr (PointerType (CharType False True False) False True))"
    by (simp add: numeral_2_eq_2 convert_type_def pointer_to_def unwrapped_pointee_def
        tag_name_of_def rule_defs example_defs)
  have b: "ir_of (convert_type 1 ctx_declared ?t no_quals Map.empty) =
      Some (Inr (IntType False False False))"
    by (simp add: convert_type_def rule_defs example_defs)
  have c: "hasConst const_quals = True" "hasVolatile const_quals = False"
    "hasConst volatile_quals = False" "hasVolatile volatile_quals = True"
    by (simp_all add: const_quals_def volatile_quals_def)
  have "ir_of (convert_type 2 ctx_declared ?p const_quals Map.empty) =
      map_option (map_sum id (with_quals const_quals))
        (ir_of (convert_type 2 ctx_declared ?p volatile_quals Map.empty))"
    using qualifier_propagation [of 2 ctx_declared ?p const_quals Map.empty volatile_quals]
    by (rule conjunct1)
  then have a': "ir_of (convert_type 2 ctx_declared ?p const_quals Map.empty) =
      Some (Inr (PointerType (CharType False True False) True False))"
    unfolding a by (simp add: c)
  have "ir_of (convert_type 1 ctx_declared ?t volatile_quals Map.empty) =
      map_option (map_sum id (with_quals volatile_quals))
        (ir_of (convert_type 1 ctx_declared ?t no_quals Map.empty))"
    using qualifier_propagation [of 1 ctx_declared ?t volatile_quals Map.empty no_quals]
    by (rule conjunct1)
  then have b': "ir_of (convert_type 1 ctx_declared ?t volatile_quals Map.empty) =
      Some (Inr (IntType False False True))"
    unfolding b by (simp add: c)
  show ?thesis
    using a a' b b' by (intro conjI)
qed

section \<open>Record types and qualifiers\<close>

text \<open>
  Claim C9. Record conversion ignores its qualifier argument: for every record
  declaration (named or not) and any two qualifier sets \<open>q\<close> and \<open>q'\<close> the rule returns
  the same outcome, and the IR type it returns (a \<open>RecordType\<close> on the expansion path,
  a \<open>NamedType\<close> on the already-defined path) has no qualifier slots. The same holds
  through the entry point for every type that desugars to a record type, where also
  the data layout tables after the two calls are equal.
\<close>

theorem record_ignores_qualifiers:
  "do_convert_record cv ctx decl q dl = do_convert_record cv ctx decl q' dl
   \<and> unqualified_outcome (do_convert_record cv ctx decl q dl)
   \<and> (getUnqualifiedDesugaredType ty = Clang_RecordType d \<longrightarrow>
        dl_aware_convert n ctx ty q dl = dl_aware_convert n ctx ty q' dl
        \<and> unqualified_outcome (dl_aware_convert n ctx ty q dl))"
proof -
  have rule: "do_convert_record cv ctx decl q dl = do_convert_record cv ctx decl q' dl"
    for cv decl dl
    by (simp add: do_convert_record_def)
  have shape: "unqualified_outcome (do_convert_record cv ctx decl q dl)" for cv decl dl
    by (simp add: do_convert_record_def Let_def unqualified_outcome_def
        split: option.splits sum.splits)
  have top: "dl_aware_convert n ctx ty q dl = dl_aware_convert n ctx ty q' dl"
    if "getUnqualifiedDesugaredType ty = Clang_RecordType d"
    using that by (cases n) (simp_all add: do_convert_def rule [of _ _ dl])
  have top_shape: "unqualified_outcome (dl_aware_convert n ctx ty q dl)"
    if "getUnqualifiedDesugaredType ty = Clang_RecordType d"
    using that shape [of "dl_aware_convert (n - 1) ctx" "getDecl ctx d" dl]
    by (cases n)
      (auto simp: do_convert_def unqualified_outcome_def split: option.splits sum.splits)
  show ?thesis
    using rule shape top top_shape by blast
qed

theorem record_ignores_qualifiers_witness:
  "getUnqualifiedDesugaredType (Clang_RecordType 1) = Clang_RecordType 1
   \<and> dl_aware_convert 3 ctx_declared (Clang_RecordType 1) const_quals Map.empty =
     dl_aware_convert 3 ctx_declared (Clang_RecordType 1) volatile_quals Map.empty
   \<and> unqualified_outcome
       (dl_aware_convert 3 ctx_declared (Clang_RecordType 1) const_quals Map.empty)
   \<and> ir_of (dl_aware_convert 3 ctx_declared (Clang_RecordType 1) const_quals Map.empty) =
     Some (Inr (RecordType
       [(''x'', IntType False False False),
        (''name'', PointerType (CharType False True False) False False)]))
   \<and> ir_of (dl_aware_convert 3 ctx_defined (Clang_RecordType 1) volatile_quals Map.empty) =
     Some (Inr (NamedType ''P''))"
proof -
  have "ir_of (dl_aware_convert 3 ctx_declared (Clang_RecordType 1) const_quals Map.empty) =
     Some (Inr (RecordType
       [(''x'', IntType False False False),
        (''name'', PointerType (CharType False True False) False False)]))"
    by (simp add: numeral_3_eq_3 ir_of_def rule_defs example_defs)
  moreover have "ir_of (dl_aware_convert 3 ctx_defined (Clang_RecordType 1) volatile_quals
      Map.empty) = Some (Inr (NamedType ''P''))"
    by (simp add: numeral_3_eq_3 ir_of_def rule_defs example_defs)
  moreover have "getUnqualifiedDesugaredType (Clang_RecordType 1) = Clang_RecordType 1"
    by simp
  ultimately show ?thesis
    using record_ignores_qualifiers [of "\<lambda>t q dl. None" ctx_declared struct_P const_quals
      Map.empty volatile_quals "Clang_RecordType 1" 1 3]
    by blast
qed

section \<open>The layout entry of a pointer that breaks the recursion\<close>

text \<open>
  Claim C10. When the pointer rule breaks the recursion (the unwrapped pointee is a tag
  type with a declared name), a conversion of the pointer through the entry point, with
  any depth bound of at least one, makes exactly one call of \<^verbatim>\<open>try_emplace\<close>: the one
  for the produced pointer type. The \<open>NamedType\<close> node of the pointee is built by the
  rule itself, so nothing is recorded under it: the table afterwards has at
  \<open>NamedType name\<close> what it had before, and its keys are those it had and the pointer
  type.
\<close>

theorem broken_recursion_layout:
  assumes "getUnqualifiedDesugaredType ty = Clang_PointerType p"
    and "tag_name_of ctx (getTypePtr (unwrapped_pointee p)) = Some name"
    and "name \<in> type_decls ctx"
    and "out = PointerType (NamedType name) (hasConst q) (hasVolatile q)"
  shows "dl_aware_convert (Suc n) ctx ty q dl = logged ctx (Some (Inr (out, [(out, ty)]))) dl
    \<and> dl_aware_convert (Suc n) ctx ty q dl = Some (Inr (out, try_emplace dl out ty ctx))
    \<and> try_emplace dl out ty ctx (NamedType name) = dl (NamedType name)
    \<and> dom (try_emplace dl out ty ctx) = insert out (dom dl)"
proof -
  have "\<not> isFunctionType ty"
    using assms(1) by (simp add: isFunctionType_def)
  then have top: "dl_aware_convert (Suc n) ctx ty q dl = Some (Inr (out, try_emplace dl out ty ctx))"
    using assms by (simp add: do_convert_def do_convert_pointer_cases)
  moreover have "logged ctx (Some (Inr (out, [(out, ty)]))) dl =
      Some (Inr (out, try_emplace dl out ty ctx))"
    by (simp add: logged_def replay_def)
  moreover have "try_emplace dl out ty ctx (NamedType name) = dl (NamedType name)"
    using assms(4) by (simp add: try_emplace_other)
  ultimately show ?thesis
    by (simp add: dom_try_emplace)
qed

theorem broken_recursion_layout_witness:
  "getUnqualifiedDesugaredType
      (Clang_PointerType (Clang_ElaboratedType (Clang_RecordType 0, no_quals), no_quals))
    = Clang_PointerType (Clang_ElaboratedType (Clang_RecordType 0, no_quals), no_quals)
   \<and> tag_name_of ctx_declared (getTypePtr (unwrapped_pointee
        (Clang_ElaboratedType (Clang_RecordType 0, no_quals), no_quals))) = Some ''S''
   \<and> ''S'' \<in> type_decls ctx_declared
   \<and> dl_aware_convert (Suc 0) ctx_declared
        (Clang_PointerType (Clang_ElaboratedType (Clang_RecordType 0, no_quals), no_quals))
        no_quals Map.empty
      = Some (Inr (PointerType (NamedType ''S'') False False,
                   [PointerType (NamedType ''S'') False False \<mapsto> \<lparr>Width = 64, Align = 64\<rparr>]))
   \<and> [PointerType (NamedType ''S'') False False \<mapsto> \<lparr>Width = 64, Align = 64\<rparr>]
        (NamedType ''S'') = None"
proof -
  let ?ty = "Clang_PointerType (Clang_ElaboratedType (Clang_RecordType 0, no_quals), no_quals)"
  let ?out = "PointerType (NamedType ''S'') False False"
  have h: "getUnqualifiedDesugaredType ?ty = ?ty"
    "tag_name_of ctx_declared (getTypePtr (unwrapped_pointee
        (Clang_ElaboratedType (Clang_RecordType 0, no_quals), no_quals))) = Some ''S''"
    "''S'' \<in> type_decls ctx_declared"
    "?out = PointerType (NamedType ''S'') (hasConst no_quals) (hasVolatile no_quals)"
    by (simp_all add: tag_name_of_def unwrapped_pointee_def getName_def example_defs)
  have e: "try_emplace Map.empty ?out ?ty ctx_declared =
      [?out \<mapsto> \<lparr>Width = 64, Align = 64\<rparr>]"
    by (simp add: try_emplace_def ctx_declared_def example_info_def)
  have "dl_aware_convert (Suc 0) ctx_declared ?ty no_quals Map.empty =
      Some (Inr (?out, try_emplace Map.empty ?out ?ty ctx_declared))"
    using broken_recursion_layout [OF h, of 0 Map.empty] by (rule conjunct2 [THEN conjunct1])
  then have main: "dl_aware_convert (Suc 0) ctx_declared ?ty no_quals Map.empty =
      Some (Inr (?out, [?out \<mapsto> \<lparr>Width = 64, Align = 64\<rparr>]))"
    by (simp only: e)
  have none: "[?out \<mapsto> \<lparr>Width = 64, Align = 64\<rparr>] (NamedType ''S'') = None"
    by simp
  show ?thesis
    using h(1-3) main none by (intro conjI)
qed

end
